theory Spec2Isabelle
  imports Complex_Main
begin

section \<open>Python values, exceptions and text helpers\<close>

text \<open>
  The repository is a thin layer over three collaborators that are not part of it: a
  memory store (Mem0), a chat-completion client (OpenAI) and the schema library
  (pydantic).  The values they exchange with the layer are Python values.  A dict with
  string keys is an association list (lookup takes the first binding).  A finite float
  other than negative zero is represented by the rational number it denotes; the four
  other floats are values of their own.
\<close>

datatype special_float = NegZero | PosInf | NegInf | NaN

datatype pyval =
    PNone
  | PBool bool
  | PInt int
  | PFloat rat
  | PSpecial special_float
  | PStr string
  | PList "pyval list"
  | PDict "(string \<times> pyval) list"

type_synonym pydict = "(string \<times> pyval) list"

text \<open>
  Exceptions.  \<open>ValueError\<close> and \<open>FileNotFoundError\<close> carry the message the source
  gives them, \<open>KeyError\<close> the missing key, \<open>ValidationError\<close> the offending fields.
  \<open>OtherException\<close> stands for any other subclass of \<open>Exception\<close> a collaborator may
  raise; \<open>KeyboardInterrupt\<close> and \<open>SystemExit\<close> are not subclasses of \<open>Exception\<close>.
\<close>

datatype field_problem = Missing | Invalid

datatype exn =
    ValueError string
  | FileNotFoundError string
  | KeyError string
  | TypeError
  | IndexError
  | AttributeError
  | OverflowError
  | ValidationError "(string \<times> field_problem) list"
  | OtherException string
  | KeyboardInterrupt
  | SystemExit

fun is_Exception :: "exn \<Rightarrow> bool" where
  "is_Exception KeyboardInterrupt = False"
| "is_Exception SystemExit = False"
| "is_Exception _ = True"

text \<open>Truthiness, as \<open>if x:\<close> and \<open>x or y\<close> test it.\<close>

fun truthy :: "pyval \<Rightarrow> bool" where
  "truthy PNone = False"
| "truthy (PBool b) = b"
| "truthy (PInt i) = (i \<noteq> 0)"
| "truthy (PFloat r) = (r \<noteq> 0)"
| "truthy (PSpecial f) = (f \<noteq> NegZero)"
| "truthy (PStr s) = (s \<noteq> [])"
| "truthy (PList xs) = (xs \<noteq> [])"
| "truthy (PDict d) = (d \<noteq> [])"

fun starts_with :: "string \<Rightarrow> string \<Rightarrow> bool" where
  "starts_with [] s = True"
| "starts_with (p # ps) [] = False"
| "starts_with (p # ps) (c # cs) = (p = c \<and> starts_with ps cs)"

fun is_substring :: "string \<Rightarrow> string \<Rightarrow> bool" where
  "is_substring p [] = starts_with p []"
| "is_substring p (c # cs) = (starts_with p (c # cs) \<or> is_substring p cs)"

text \<open>\<open>d.get(k, default)\<close>: only a dict has the method.\<close>

fun py_get :: "pyval \<Rightarrow> string \<Rightarrow> pyval \<Rightarrow> exn + pyval" where
  "py_get (PDict d) k dflt = Inr (case map_of d k of None \<Rightarrow> dflt | Some v \<Rightarrow> v)"
| "py_get _ k dflt = Inl AttributeError"

text \<open>\<open>k in c\<close> for a string \<open>k\<close>: key membership in a dict, element membership in a
  list, substring test in a string; the other values are not iterable.\<close>

fun py_contains :: "pyval \<Rightarrow> string \<Rightarrow> exn + bool" where
  "py_contains (PDict d) k = Inr (map_of d k \<noteq> None)"
| "py_contains (PList xs) k = Inr (PStr k \<in> set xs)"
| "py_contains (PStr s) k = Inr (is_substring k s)"
| "py_contains _ k = Inl TypeError"

text \<open>\<open>c[k]\<close> for a string \<open>k\<close>: a dict raises \<open>KeyError\<close> on a missing key; lists and
  strings take integer indices only; the other values are not subscriptable.\<close>

fun py_getitem :: "pyval \<Rightarrow> string \<Rightarrow> exn + pyval" where
  "py_getitem (PDict d) k = (case map_of d k of None \<Rightarrow> Inl (KeyError k) | Some v \<Rightarrow> Inr v)"
| "py_getitem _ k = Inl TypeError"

section \<open>Configuration loader (llm.py)\<close>

text \<open>
  \<open>class LLMConfig(BaseModel)\<close>: three required string fields and four fields with
  declared defaults.
\<close>

record llm_config =
  api_key :: string
  api_base :: string
  model :: string
  temperature :: rat
  max_tokens :: int
  top_p :: rat
  system_prompt :: string

text \<open>
  The schema library validates a keyword argument against the annotation of its field.
  Which values of another type it coerces depends on the library's version, so the three
  validators the schema uses are parameters; \<open>None\<close> is a rejected value.
\<close>

record validators =
  v_str :: "pyval \<Rightarrow> string option"
  v_float :: "pyval \<Rightarrow> rat option"
  v_int :: "pyval \<Rightarrow> int option"

text \<open>The validators that accept exactly the values of the annotated type.\<close>

definition exact_validators :: validators where
  "exact_validators =
     \<lparr> v_str = (\<lambda>v. case v of PStr s \<Rightarrow> Some s | _ \<Rightarrow> None),
       v_float = (\<lambda>v. case v of PFloat r \<Rightarrow> Some r | _ \<Rightarrow> None),
       v_int = (\<lambda>v. case v of PInt i \<Rightarrow> Some i | _ \<Rightarrow> None) \<rparr>"

text \<open>A field without a default is required; a field with a default takes it, unvalidated,
  when the keyword is absent.\<close>

definition required :: "(pyval \<Rightarrow> 'a option) \<Rightarrow> pydict \<Rightarrow> string \<Rightarrow> field_problem + 'a" where
  "required v kw k =
     (case map_of kw k of
        None \<Rightarrow> Inl Missing
      | Some x \<Rightarrow> (case v x of None \<Rightarrow> Inl Invalid | Some a \<Rightarrow> Inr a))"

definition optional :: "(pyval \<Rightarrow> 'a option) \<Rightarrow> pydict \<Rightarrow> string \<Rightarrow> 'a \<Rightarrow> field_problem + 'a" where
  "optional v kw k dflt =
     (case map_of kw k of
        None \<Rightarrow> Inr dflt
      | Some x \<Rightarrow> (case v x of None \<Rightarrow> Inl Invalid | Some a \<Rightarrow> Inr a))"

definition problem_of :: "string \<Rightarrow> field_problem + 'a \<Rightarrow> (string \<times> field_problem) list" where
  "problem_of k r = (case r of Inl p \<Rightarrow> [(k, p)] | Inr a \<Rightarrow> [])"

definition default_system_prompt :: string where
  "default_system_prompt =
     ''You are a helpful AI assistant. Use the provided memories to give context-aware responses.''"

text \<open>\<open>LLMConfig(**kw)\<close>: every field is checked and all problems are reported in one
  \<open>ValidationError\<close>; keywords that name no field are ignored.\<close>

definition LLMConfig :: "validators \<Rightarrow> pydict \<Rightarrow> exn + llm_config" where
  "LLMConfig V kw =
     (let r_key = required (v_str V) kw ''api_key'';
          r_base = required (v_str V) kw ''api_base'';
          r_model = required (v_str V) kw ''model'';
          r_temp = optional (v_float V) kw ''temperature'' (7 / 10);
          r_max = optional (v_int V) kw ''max_tokens'' 2000;
          r_top = optional (v_float V) kw ''top_p'' 1;
          r_sys = optional (v_str V) kw ''system_prompt'' default_system_prompt;
          errs = problem_of ''api_key'' r_key @ problem_of ''api_base'' r_base
               @ problem_of ''model'' r_model @ problem_of ''temperature'' r_temp
               @ problem_of ''max_tokens'' r_max @ problem_of ''top_p'' r_top
               @ problem_of ''system_prompt'' r_sys
      in case r_key of Inl p \<Rightarrow> Inl (ValidationError errs) | Inr k \<Rightarrow>
         (case r_base of Inl p \<Rightarrow> Inl (ValidationError errs) | Inr b \<Rightarrow>
         (case r_model of Inl p \<Rightarrow> Inl (ValidationError errs) | Inr m \<Rightarrow>
         (case r_temp of Inl p \<Rightarrow> Inl (ValidationError errs) | Inr t \<Rightarrow>
         (case r_max of Inl p \<Rightarrow> Inl (ValidationError errs) | Inr n \<Rightarrow>
         (case r_top of Inl p \<Rightarrow> Inl (ValidationError errs) | Inr tp \<Rightarrow>
         (case r_sys of Inl p \<Rightarrow> Inl (ValidationError errs) | Inr sp \<Rightarrow>
            Inr \<lparr> api_key = k, api_base = b, model = m, temperature = t,
                  max_tokens = n, top_p = tp, system_prompt = sp \<rparr>)))))))"

text \<open>\<open>MemoryConfig\<close> (memory.py): of its fields the operations read the two limits.\<close>

record memory_config =
  search_limit :: int
  context_limit :: int

text \<open>A \<open>MemoryManager\<close> holds its configuration; its \<open>memory\<close> attribute is the store
  client, whose behaviour is a parameter of the operations below.\<close>

record memory_manager =
  mm_config :: memory_config

record openai_client =
  client_api_key :: string
  base_url :: string

record llm =
  provider :: string
  memory_manager :: "memory_manager option"
  user_id :: string
  config :: llm_config
  client :: openai_client

text \<open>
  What the constructor reads from its host: the file system (\<open>None\<close>: the path does not
  exist; \<open>Some (Inl e)\<close>: opening or parsing raises \<open>e\<close>; \<open>Some (Inr v)\<close>: the value
  \<open>yaml.safe_load\<close> returns), the path of \<open>config.yaml\<close> beside the module, the token
  \<open>str(uuid.uuid4())\<close> returns, the schema library's validators, and the constructor
  \<open>OpenAI(api_key=..., base_url=...)\<close> of the completion client, which either returns a
  client or raises (it rejects some credentials).
\<close>

record host =
  files :: "string \<Rightarrow> (exn + pyval) option"
  default_config_path :: string
  uuid4 :: string
  pydantic :: validators
  openai :: "string \<Rightarrow> string \<Rightarrow> exn + openai_client"

text \<open>\<open>x or y\<close> on an optional string: \<open>None\<close> and the empty string are both falsy.\<close>

definition str_or :: "string option \<Rightarrow> string \<Rightarrow> string" where
  "str_or x y = (case x of None \<Rightarrow> y | Some s \<Rightarrow> if s \<noteq> [] then s else y)"

definition provider_not_found :: "string \<Rightarrow> exn" where
  "provider_not_found p = ValueError (''Provider '' @ [CHR 0x27] @ p @ [CHR 0x27] @ '' not found in configuration'')"

text \<open>\<open>LLM.__init__\<close>.\<close>

definition LLM_init ::
  "host \<Rightarrow> string \<Rightarrow> memory_manager option \<Rightarrow> string option \<Rightarrow> string option \<Rightarrow> exn + llm" where
  "LLM_init H prov mm uid config_path =
     (let uid' = str_or uid (uuid4 H);
          path = (case config_path of None \<Rightarrow> default_config_path H | Some p \<Rightarrow> p)
      in case files H path of
           None \<Rightarrow> Inl (FileNotFoundError (''Configuration file not found: '' @ path))
         | Some (Inl e) \<Rightarrow> Inl e
         | Some (Inr cfg) \<Rightarrow>
             (case py_get cfg ''providers'' (PDict []) of Inl e \<Rightarrow> Inl e | Inr provs \<Rightarrow>
             (case py_contains provs prov of Inl e \<Rightarrow> Inl e | Inr found \<Rightarrow>
                if \<not> found then Inl (provider_not_found prov)
                else
             (case py_getitem cfg ''providers'' of Inl e \<Rightarrow> Inl e | Inr provs' \<Rightarrow>
             (case py_getitem provs' prov of Inl e \<Rightarrow> Inl e | Inr provider_config \<Rightarrow>
             (case provider_config of
                PDict kw \<Rightarrow>
                  (case LLMConfig (pydantic H) kw of Inl e \<Rightarrow> Inl e | Inr c \<Rightarrow>
                  (case openai H (api_key c) (api_base c) of Inl e \<Rightarrow> Inl e | Inr cl \<Rightarrow>
                     Inr \<lparr> provider = prov, memory_manager = mm, user_id = uid', config = c,
                           client = cl \<rparr>))
              | _ \<Rightarrow> Inl TypeError))))))"

section \<open>Text formatting\<close>

definition nl :: string where
  "nl = [CHR 0x0A]"

text \<open>\<open>sep.join(xs)\<close>.\<close>

fun join :: "string \<Rightarrow> string list \<Rightarrow> string" where
  "join sep [] = []"
| "join sep [x] = x"
| "join sep (x # y # ys) = x @ sep @ join sep (y # ys)"

definition digit :: "nat \<Rightarrow> char" where
  "digit n = char_of (48 + n)"

fun show_nat :: "nat \<Rightarrow> string" where
  "show_nat n = (if n < 10 then [digit n] else show_nat (n div 10) @ [digit (n mod 10)])"

declare show_nat.simps [simp del]

text \<open>The decimal digits of a non-negative int.\<close>

function show_dec :: "int \<Rightarrow> string" where
  "show_dec n =
     (if n < 10 then [digit (nat n)] else show_dec (n div 10) @ [digit (nat (n mod 10))])"
  by pat_completeness auto
termination
  by (relation "measure nat") auto

declare show_dec.simps [simp del]

text \<open>
  \<open>float(i)\<close> for an int: the nearest double, ties to the even significand of 53 bits;
  \<open>OverflowError\<close> when that is beyond the largest double.
\<close>

function bit_length :: "int \<Rightarrow> nat" where
  "bit_length n = (if n \<le> 0 then 0 else Suc (bit_length (n div 2)))"
  by pat_completeness auto
termination
  by (relation "measure nat") auto

declare bit_length.simps [simp del]

definition float_of_int :: "int \<Rightarrow> exn + rat" where
  "float_of_int i =
     (let n = \<bar>i\<bar>;
          k = bit_length n - 53;
          q = n div 2 ^ k;
          r = n mod 2 ^ k;
          q' = (if 2 ^ k < 2 * r \<or> (2 * r = 2 ^ k \<and> odd q) then q + 1 else q);
          m = q' * 2 ^ k
      in if 2 ^ 1024 \<le> m then Inl OverflowError
         else Inr (of_int (if i < 0 then - m else m)))"

text \<open>
  The format specification \<open>.2f\<close>: two decimals, correctly rounded from the exact value
  of the float, ties to the even neighbour, a minus sign for a negative value and for
  negative zero.  An int or a bool is converted to a float first; a string has no format
  code \<open>f\<close>; \<open>None\<close>, lists and dicts do not support a format specification.
\<close>

definition round_half_even :: "rat \<Rightarrow> int" where
  "round_half_even x =
     (let f = \<lfloor>x\<rfloor>; d = x - of_int f
      in if d < 1 / 2 then f else if 1 / 2 < d then f + 1 else if even f then f else f + 1)"

definition format_2f_rat :: "rat \<Rightarrow> string" where
  "format_2f_rat x =
     (let h = round_half_even (\<bar>x\<bar> * 100)
      in (if x < 0 then [CHR 0x2D] else []) @ show_dec (h div 100) @ [CHR 0x2E]
         @ [digit (nat (h mod 100 div 10)), digit (nat (h mod 10))])"

fun format_2f :: "pyval \<Rightarrow> exn + string" where
  "format_2f (PFloat r) = Inr (format_2f_rat r)"
| "format_2f (PSpecial f) =
     Inr (case f of NegZero \<Rightarrow> ''-0.00'' | PosInf \<Rightarrow> ''inf'' | NegInf \<Rightarrow> ''-inf'' | NaN \<Rightarrow> ''nan'')"
| "format_2f (PInt i) =
     (case float_of_int i of Inl e \<Rightarrow> Inl e | Inr x \<Rightarrow> Inr (format_2f_rat x))"
| "format_2f (PBool b) = Inr (format_2f_rat (if b then 1 else 0))"
| "format_2f (PStr s) =
     Inl (ValueError (''Unknown format code '' @ [CHR 0x27] @ ''f'' @ [CHR 0x27]
                      @ '' for object of type '' @ [CHR 0x27] @ ''str'' @ [CHR 0x27]))"
| "format_2f _ = Inl TypeError"

section \<open>The collaborators and the calls issued to them\<close>

text \<open>A chat message is a dict with the keys \<open>role\<close> and \<open>content\<close>; the content of a
  completion may be \<open>None\<close>.\<close>

record message =
  role :: string
  content :: "string option"

text \<open>The keyword arguments of \<open>client.chat.completions.create\<close>.\<close>

record request =
  req_model :: string
  req_messages :: "message list"
  req_stream :: bool
  req_temperature :: rat
  req_max_tokens :: int

text \<open>
  A streamed response is read chunk by chunk.  A chunk is represented by the list of
  \<open>delta.content\<close> values of its choices; reading the next chunk may raise instead.
  The stream is finite.
\<close>

datatype stream_item = Chunk "string option list" | StreamError exn

text \<open>The calls the layer issues, in the order it issues them: \<open>memory.search(query,
  user_id, limit)\<close>, \<open>memory.add(messages, user_id)\<close>, \<open>memory.clear(user_id)\<close> and
  \<open>client.chat.completions.create\<close>.\<close>

datatype call =
    SearchCall string string int
  | AddCall "message list" string
  | ClearCall string
  | CreateCall openai_client request

text \<open>
  The collaborators.  \<open>'s\<close> is the state of the memory store.  \<open>mem_search s query
  user_id limit\<close> reads it and returns the list under the key \<open>results\<close> of the store's
  answer, each result a dict; \<open>mem_add\<close> and \<open>mem_clear\<close> return the exception raised,
  if any, and the new state.  \<open>create\<close> returns the \<open>message.content\<close> of each choice
  of a completion, \<open>create_stream\<close> the stream.  \<open>py_repr\<close> is Python's \<open>repr\<close>,
  \<open>exn_text\<close> is \<open>str\<close> on an exception object.
\<close>

record 's env =
  mem_search :: "'s \<Rightarrow> string \<Rightarrow> string \<Rightarrow> int \<Rightarrow> exn + pydict list"
  mem_add :: "'s \<Rightarrow> message list \<Rightarrow> string \<Rightarrow> exn option \<times> 's"
  mem_clear :: "'s \<Rightarrow> string \<Rightarrow> exn option \<times> 's"
  create :: "openai_client \<Rightarrow> request \<Rightarrow> exn + string option list"
  create_stream :: "openai_client \<Rightarrow> request \<Rightarrow> exn + stream_item list"
  py_repr :: "pyval \<Rightarrow> string"
  exn_text :: "exn \<Rightarrow> string"

text \<open>The state an operation runs in: the store, and the log of the calls issued so far.\<close>

record 's world =
  store :: 's
  calls :: "call list"

definition issue :: "call \<Rightarrow> 's world \<Rightarrow> 's world" where
  "issue c w = w\<lparr>calls := calls w @ [c]\<rparr>"

text \<open>\<open>str(v)\<close>, which an f-string applies to a value without a format specification.\<close>

definition py_str :: "'s env \<Rightarrow> pyval \<Rightarrow> string" where
  "py_str E v = (case v of PStr s \<Rightarrow> s | _ \<Rightarrow> py_repr E v)"

definition dict_get :: "pydict \<Rightarrow> string \<Rightarrow> pyval \<Rightarrow> pyval" where
  "dict_get d k dflt = (case map_of d k of None \<Rightarrow> dflt | Some v \<Rightarrow> v)"

text \<open>A list comprehension whose element expression may raise: the first exception ends it.\<close>

fun traverse :: "('a \<Rightarrow> exn + 'b) \<Rightarrow> 'a list \<Rightarrow> exn + 'b list" where
  "traverse f [] = Inr []"
| "traverse f (x # xs) =
     (case f x of
        Inl e \<Rightarrow> Inl e
      | Inr y \<Rightarrow> (case traverse f xs of Inl e \<Rightarrow> Inl e | Inr ys \<Rightarrow> Inr (y # ys)))"

section \<open>Memory Manager (memory.py)\<close>

definition profile_record :: "pydict \<Rightarrow> exn + pydict" where
  "profile_record m =
     (case map_of m ''memory'' of
        None \<Rightarrow> Inl (KeyError ''memory'')
      | Some c \<Rightarrow>
          Inr [(''content'', c),
               (''metadata'', dict_get m ''metadata'' (PDict [])),
               (''created_at'', dict_get m ''timestamp'' PNone)])"

text \<open>\<open>MemoryManager.get_user_profile\<close>; the dict \<open>{"recent_memories": xs}\<close> it returns
  is represented by \<open>xs\<close>.\<close>

definition mm_get_user_profile ::
  "'s env \<Rightarrow> memory_manager \<Rightarrow> string \<Rightarrow> bool \<Rightarrow> 's world \<Rightarrow> (exn + pydict list) \<times> 's world" where
  "mm_get_user_profile E mm uid as_json w =
     (let lim = search_limit (mm_config mm);
          w' = issue (SearchCall ''summary'' uid lim) w
      in case mem_search E (store w) ''summary'' uid lim of
           Inl e \<Rightarrow> (Inl e, w')
         | Inr results \<Rightarrow> (traverse profile_record results, w'))"

definition context_line :: "'s env \<Rightarrow> pydict \<Rightarrow> exn + string" where
  "context_line E m =
     (case map_of m ''memory'' of
        None \<Rightarrow> Inl (KeyError ''memory'')
      | Some c \<Rightarrow>
          Inr (''- '' @ py_str E c @ '' (Metadata: ''
               @ py_str E (dict_get m ''metadata'' (PDict [])) @ '')''))"

text \<open>\<open>MemoryManager.get_context\<close>.\<close>

definition get_context ::
  "'s env \<Rightarrow> memory_manager \<Rightarrow> string \<Rightarrow> int \<Rightarrow> string list option \<Rightarrow> 's world
     \<Rightarrow> (exn + string) \<times> 's world" where
  "get_context E mm uid max_token_size prefer_topics w =
     (let lim = context_limit (mm_config mm);
          w' = issue (SearchCall ''summary'' uid lim) w
      in case mem_search E (store w) ''summary'' uid lim of
           Inl e \<Rightarrow> (Inl e, w')
         | Inr results \<Rightarrow>
             (case traverse (context_line E) results of
                Inl e \<Rightarrow> (Inl e, w')
              | Inr ls \<Rightarrow> (Inr (''Recent context:'' @ nl @ join nl ls), w')))"

definition search_record :: "pydict \<Rightarrow> exn + pydict" where
  "search_record m =
     (case map_of m ''memory'' of
        None \<Rightarrow> Inl (KeyError ''memory'')
      | Some c \<Rightarrow>
          Inr [(''content'', c),
               (''metadata'', dict_get m ''metadata'' (PDict [])),
               (''created_at'', dict_get m ''timestamp'' PNone),
               (''relevance_score'', dict_get m ''score'' (PFloat 0))])"

text \<open>\<open>MemoryManager.search_memories\<close>.\<close>

definition mm_search_memories ::
  "'s env \<Rightarrow> memory_manager \<Rightarrow> string \<Rightarrow> string \<Rightarrow> int \<Rightarrow> 's world
     \<Rightarrow> (exn + pydict list) \<times> 's world" where
  "mm_search_memories E mm uid query max_results w =
     (let lim = min max_results (search_limit (mm_config mm));
          w' = issue (SearchCall query uid lim) w
      in case mem_search E (store w) query uid lim of
           Inl e \<Rightarrow> (Inl e, w')
         | Inr results \<Rightarrow> (traverse search_record results, w'))"

text \<open>\<open>MemoryManager.delete_user\<close>: the bare \<open>except:\<close> catches every exception.\<close>

definition delete_user ::
  "'s env \<Rightarrow> memory_manager \<Rightarrow> string \<Rightarrow> 's world \<Rightarrow> (exn + bool) \<times> 's world" where
  "delete_user E mm uid w =
     (let w' = issue (ClearCall uid) w;
          (r, s') = mem_clear E (store w) uid
      in case r of
           None \<Rightarrow> (Inr True, w'\<lparr>store := s'\<rparr>)
         | Some e \<Rightarrow> (Inr False, w'\<lparr>store := s'\<rparr>))"

section \<open>Chat Orchestrator (llm.py)\<close>

definition memory_not_initialized :: exn where
  "memory_not_initialized = ValueError ''Memory manager not initialized''"

text \<open>One bullet of the system prompt:
  \<open>f"- {entry['memory']} (Relevance: {entry.get('score', 0.0):.2f})"\<close>.\<close>

definition memory_line :: "'s env \<Rightarrow> pydict \<Rightarrow> exn + string" where
  "memory_line E entry =
     (case map_of entry ''memory'' of
        None \<Rightarrow> Inl (KeyError ''memory'')
      | Some c \<Rightarrow>
          (case format_2f (dict_get entry ''score'' (PFloat 0)) of
             Inl e \<Rightarrow> Inl e
           | Inr sc \<Rightarrow> Inr (''- '' @ py_str E c @ '' (Relevance: '' @ sc @ '')'')))"

definition build_system_prompt :: "llm \<Rightarrow> string list \<Rightarrow> string" where
  "build_system_prompt L ls =
     system_prompt (config L) @ nl @ nl @ ''Relevant Memories:'' @ nl @ join nl ls"

text \<open>The two messages sent to the completion client.\<close>

definition prompt_messages :: "llm \<Rightarrow> string list \<Rightarrow> string \<Rightarrow> message list" where
  "prompt_messages L ls msg =
     [\<lparr> role = ''system'', content = Some (build_system_prompt L ls) \<rparr>,
      \<lparr> role = ''user'', content = Some msg \<rparr>]"

definition chat_request :: "llm \<Rightarrow> message list \<Rightarrow> bool \<Rightarrow> request" where
  "chat_request L msgs st =
     \<lparr> req_model = model (config L), req_messages = msgs, req_stream = st,
       req_temperature = temperature (config L), req_max_tokens = max_tokens (config L) \<rparr>"

definition assistant :: "string option \<Rightarrow> message" where
  "assistant c = \<lparr> role = ''assistant'', content = c \<rparr>"

text \<open>
  \<open>chat_with_memories\<close> is a generator function: calling it runs none of its body and
  returns a generator object, which runs up to its next \<open>yield\<close> each time the caller
  asks for the next value.  A generator object is either not yet started (it holds the
  arguments of the call), suspended at the \<open>yield\<close> of the streaming loop (it holds
  \<open>messages\<close>, the resolved \<open>user_id\<close>, \<open>store_memory\<close>, \<open>collected_response\<close> and
  the unread part of the stream), suspended at the final \<open>yield\<close> of the non-streaming
  branch, or finished.
\<close>

datatype gen =
    Created string "string option" bool bool
  | Streaming "message list" string bool "string list" "stream_item list"
  | Replied
  | Finished

text \<open>What asking a generator for its next value gives: a value, \<open>StopIteration\<close>, or
  the exception the body raised.\<close>

datatype 'a step = Yield 'a | Stop | Raise exn

definition chat_with_memories :: "string \<Rightarrow> string option \<Rightarrow> bool \<Rightarrow> bool \<Rightarrow> gen" where
  "chat_with_memories msg uid store_memory stream = Created msg uid store_memory stream"

text \<open>\<open>memory.add(messages, user_id=user_id)\<close> after the assistant message is appended.\<close>

definition store_turn ::
  "'s env \<Rightarrow> message list \<Rightarrow> string option \<Rightarrow> string \<Rightarrow> 's world \<Rightarrow> exn option \<times> 's world" where
  "store_turn E msgs reply uid w =
     (let msgs' = msgs @ [assistant reply];
          w' = issue (AddCall msgs' uid) w;
          (r, s') = mem_add E (store w) msgs' uid
      in (r, w'\<lparr>store := s'\<rparr>))"

text \<open>The streaming loop (lines 132 to 141), entered at the top of the \<open>for\<close>
  statement with the unread part of the stream.\<close>

fun stream_loop ::
  "'s env \<Rightarrow> message list \<Rightarrow> string \<Rightarrow> bool \<Rightarrow> string list \<Rightarrow> stream_item list \<Rightarrow> 's world
     \<Rightarrow> string option step \<times> gen \<times> 's world" where
  "stream_loop E msgs uid sm coll [] w =
     (if sm then
        (case store_turn E msgs (Some (concat coll)) uid w of
           (Some e, w') \<Rightarrow> (Raise e, Finished, w')
         | (None, w') \<Rightarrow> (Stop, Finished, w'))
      else (Stop, Finished, w))"
| "stream_loop E msgs uid sm coll (StreamError e # rest) w = (Raise e, Finished, w)"
| "stream_loop E msgs uid sm coll (Chunk cs # rest) w =
     (case cs of
        [] \<Rightarrow> (Raise IndexError, Finished, w)
      | c # cs' \<Rightarrow>
          (case c of
             None \<Rightarrow> stream_loop E msgs uid sm coll rest w
           | Some s \<Rightarrow>
               if s \<noteq> [] then (Yield (Some s), Streaming msgs uid sm (coll @ [s]) rest, w)
               else stream_loop E msgs uid sm coll rest w))"

text \<open>The body from its first line to the first \<open>yield\<close>, return or raise.\<close>

definition chat_start ::
  "'s env \<Rightarrow> llm \<Rightarrow> string \<Rightarrow> string option \<Rightarrow> bool \<Rightarrow> bool \<Rightarrow> 's world
     \<Rightarrow> string option step \<times> gen \<times> 's world" where
  "chat_start E L msg uid_arg sm st w =
     (case memory_manager L of
        None \<Rightarrow> (Raise memory_not_initialized, Finished, w)
      | Some mm \<Rightarrow>
          (let uid = str_or uid_arg (user_id L);
               lim = context_limit (mm_config mm);
               w1 = issue (SearchCall msg uid lim) w
           in case mem_search E (store w) msg uid lim of
                Inl e \<Rightarrow> (Raise e, Finished, w1)
              | Inr results \<Rightarrow>
                  (case traverse (memory_line E) results of
                     Inl e \<Rightarrow> (Raise e, Finished, w1)
                   | Inr ls \<Rightarrow>
                       (let msgs = prompt_messages L ls msg;
                            req = chat_request L msgs st;
                            w2 = issue (CreateCall (client L) req) w1
                        in if st then
                             (case create_stream E (client L) req of
                                Inl e \<Rightarrow> (Raise e, Finished, w2)
                              | Inr items \<Rightarrow> stream_loop E msgs uid sm [] items w2)
                           else
                             (case create E (client L) req of
                                Inl e \<Rightarrow> (Raise e, Finished, w2)
                              | Inr choices \<Rightarrow>
                                  (case choices of
                                     [] \<Rightarrow> (Raise IndexError, Finished, w2)
                                   | reply # others \<Rightarrow>
                                       if sm then
                                         (case store_turn E msgs reply uid w2 of
                                            (Some e, w3) \<Rightarrow> (Raise e, Finished, w3)
                                          | (None, w3) \<Rightarrow> (Yield reply, Replied, w3))
                                       else (Yield reply, Replied, w2)))))))"

text \<open>\<open>next(g)\<close>: resume the generator \<open>g\<close> of the orchestrator \<open>L\<close>.\<close>

fun gen_next ::
  "'s env \<Rightarrow> llm \<Rightarrow> gen \<Rightarrow> 's world \<Rightarrow> string option step \<times> gen \<times> 's world" where
  "gen_next E L (Created msg uid sm st) w = chat_start E L msg uid sm st w"
| "gen_next E L (Streaming msgs uid sm coll items) w = stream_loop E msgs uid sm coll items w"
| "gen_next E L Replied w = (Stop, Finished, w)"
| "gen_next E L Finished w = (Stop, Finished, w)"

text \<open>
  A caller that asks for at most \<open>n\<close> values and may then abandon the generator: the
  results of its \<open>next\<close> calls, up to the first that is not a value.  An abandoned
  generator runs no further (the body has no \<open>try\<close> statement).
\<close>

fun gen_steps ::
  "'s env \<Rightarrow> llm \<Rightarrow> nat \<Rightarrow> gen \<Rightarrow> 's world \<Rightarrow> string option step list \<times> gen \<times> 's world" where
  "gen_steps E L 0 g w = ([], g, w)"
| "gen_steps E L (Suc n) g w =
     (case gen_next E L g w of
        (Yield v, g', w') \<Rightarrow>
          (case gen_steps E L n g' w' of (rs, g'', w'') \<Rightarrow> (Yield v # rs, g'', w''))
      | (r, g', w') \<Rightarrow> ([r], g', w'))"

text \<open>The values among the results of a caller's \<open>next\<close> calls.\<close>

fun yielded :: "'a step list \<Rightarrow> 'a list" where
  "yielded [] = []"
| "yielded (Yield v # rs) = v # yielded rs"
| "yielded (r # rs) = yielded rs"

text \<open>
  The fragments a stream delivers when it is read to its end: the non-empty
  \<open>delta.content\<close> of the first choice of each chunk, in order.  There is no such
  sequence when reading the stream raises on the way, or a chunk has no choice.
\<close>

fun stream_fragments :: "stream_item list \<Rightarrow> string list option" where
  "stream_fragments [] = Some []"
| "stream_fragments (StreamError e # rest) = None"
| "stream_fragments (Chunk [] # rest) = None"
| "stream_fragments (Chunk (c # cs) # rest) =
     (case stream_fragments rest of
        None \<Rightarrow> None
      | Some fs \<Rightarrow> Some (case c of None \<Rightarrow> fs | Some s \<Rightarrow> if s \<noteq> [] then s # fs else fs))"

text \<open>The calls that write to the memory store.\<close>

fun is_write :: "call \<Rightarrow> bool" where
  "is_write (AddCall msgs uid) = True"
| "is_write (ClearCall uid) = True"
| "is_write (SearchCall q uid k) = False"
| "is_write (CreateCall c r) = False"

text \<open>\<open>LLM.get_user_profile\<close> and \<open>LLM.search_memories\<close>.\<close>

definition llm_get_user_profile ::
  "'s env \<Rightarrow> llm \<Rightarrow> 's world \<Rightarrow> (exn + pydict list) \<times> 's world" where
  "llm_get_user_profile E L w =
     (case memory_manager L of
        None \<Rightarrow> (Inl memory_not_initialized, w)
      | Some mm \<Rightarrow> mm_get_user_profile E mm (user_id L) True w)"

definition llm_search_memories ::
  "'s env \<Rightarrow> llm \<Rightarrow> string \<Rightarrow> int \<Rightarrow> 's world \<Rightarrow> (exn + pydict list) \<times> 's world" where
  "llm_search_memories E L query max_results w =
     (case memory_manager L of
        None \<Rightarrow> (Inl memory_not_initialized, w)
      | Some mm \<Rightarrow> mm_search_memories E mm (user_id L) query max_results w)"

text \<open>
  A \<open>for\<close> loop over the generator asks for values until the generator stops or raises:
  the values, the exception that ended the iteration (if any), and the final state.  The
  iteration ends because the stream is finite: each value leaves a shorter unread part.
\<close>

fun rank :: "gen \<Rightarrow> nat" where
  "rank (Streaming msgs uid sm coll items) = Suc (length items)"
| "rank Replied = 1"
| "rank _ = 0"

definition gen_rank :: "'s env \<Rightarrow> llm \<Rightarrow> gen \<Rightarrow> 's world \<Rightarrow> nat" where
  "gen_rank E L g w =
     (case g of
        Created m u sm st \<Rightarrow> Suc (rank (fst (snd (chat_start E L m u sm st w))))
      | _ \<Rightarrow> rank g)"

lemma stream_loop_shrinks:
  "stream_loop E msgs uid sm coll items w = (Yield v, g', w') \<Longrightarrow> rank g' \<le> length items"
proof (induction items)
  case Nil
  then show ?case by (auto split: prod.splits option.splits if_splits)
next
  case (Cons it items)
  then show ?case
    by (cases it) (auto split: option.splits list.splits if_splits)
qed

lemma stream_loop_not_Created:
  "stream_loop E msgs uid sm coll items w = (r, g', w') \<Longrightarrow> g' \<noteq> Created a b c d"
proof (induction items)
  case Nil
  then show ?case by (auto split: prod.splits option.splits if_splits)
next
  case (Cons it items)
  then show ?case
    by (cases it) (auto split: option.splits list.splits if_splits)
qed

lemma chat_start_not_Created:
  "chat_start E L m u sm st w = (r, g', w') \<Longrightarrow> g' \<noteq> Created a b c d"
  by (auto simp: chat_start_def Let_def dest: stream_loop_not_Created
        split: prod.splits option.splits list.splits if_splits sum.splits)

lemma gen_next_rank:
  "gen_next E L g w = (Yield v, g', w') \<Longrightarrow> gen_rank E L g' w' < gen_rank E L g w"
proof (cases g)
  case (Created m u sm st)
  assume h: "gen_next E L g w = (Yield v, g', w')"
  with Created have cs: "chat_start E L m u sm st w = (Yield v, g', w')" by simp
  then have "\<And>a b c d. g' \<noteq> Created a b c d" by (rule chat_start_not_Created)
  then have "gen_rank E L g' w' = rank g'" by (cases g') (auto simp: gen_rank_def)
  with cs Created show ?thesis by (simp add: gen_rank_def)
next
  case (Streaming msgs uid sm coll items)
  assume h: "gen_next E L g w = (Yield v, g', w')"
  with Streaming have sl: "stream_loop E msgs uid sm coll items w = (Yield v, g', w')" by simp
  from sl have "rank g' \<le> length items" by (rule stream_loop_shrinks)
  moreover from sl have "\<And>a b c d. g' \<noteq> Created a b c d" by (rule stream_loop_not_Created)
  then have "gen_rank E L g' w' = rank g'" by (cases g') (auto simp: gen_rank_def)
  ultimately show ?thesis using Streaming by (simp add: gen_rank_def)
qed auto

function drain ::
  "'s env \<Rightarrow> llm \<Rightarrow> gen \<Rightarrow> 's world \<Rightarrow> string option list \<times> exn option \<times> 's world" where
  "drain E L g w =
     (case gen_next E L g w of
        (Yield v, g', w') \<Rightarrow> (case drain E L g' w' of (vs, r, w'') \<Rightarrow> (v # vs, r, w''))
      | (Stop, g', w') \<Rightarrow> ([], None, w')
      | (Raise e, g', w') \<Rightarrow> ([], Some e, w'))"
  by pat_completeness auto
termination
  by (relation "measure (\<lambda>(E, L, g, w). gen_rank E L g w)") (auto dest: gen_next_rank [OF sym])

declare drain.simps [simp del]

text \<open>The two named constructors.\<close>

definition create_silicon_flow ::
  "host \<Rightarrow> memory_manager option \<Rightarrow> string option \<Rightarrow> string option \<Rightarrow> exn + llm" where
  "create_silicon_flow H mm uid config_path = LLM_init H ''silicon_flow'' mm uid config_path"

definition create_open_router ::
  "host \<Rightarrow> memory_manager option \<Rightarrow> string option \<Rightarrow> string option \<Rightarrow> exn + llm" where
  "create_open_router H mm uid config_path = LLM_init H ''open_router'' mm uid config_path"

section \<open>Interactive shell (main.py)\<close>

text \<open>
  Standard output is the list of the texts written, one per \<open>print\<close> call.  A \<open>char\<close>
  stands for one code point below 256: \<open>strip\<close> removes the white space of that range
  and \<open>lower\<close> maps its upper-case letters.
\<close>

definition is_space :: "char \<Rightarrow> bool" where
  "is_space c =
     (let n = (of_char c :: nat)
      in (9 \<le> n \<and> n \<le> 13) \<or> (28 \<le> n \<and> n \<le> 32) \<or> n = 133 \<or> n = 160)"

definition strip :: "string \<Rightarrow> string" where
  "strip s = rev (dropWhile is_space (rev (dropWhile is_space s)))"

definition lower_char :: "char \<Rightarrow> char" where
  "lower_char c =
     (let n = (of_char c :: nat)
      in if (65 \<le> n \<and> n \<le> 90) \<or> (192 \<le> n \<and> n \<le> 222 \<and> n \<noteq> 215) then char_of (n + 32)
         else c)"

definition lower :: "string \<Rightarrow> string" where
  "lower s = map lower_char s"

text \<open>\<open>s.split(' ', 1)\<close>: split at the first space, if there is one.\<close>

definition split1 :: "string \<Rightarrow> string list" where
  "split1 s =
     (case dropWhile (\<lambda>c. c \<noteq> CHR 0x20) s of
        [] \<Rightarrow> [s]
      | sp # rest \<Rightarrow> [takeWhile (\<lambda>c. c \<noteq> CHR 0x20) s, rest])"

definition print_line :: "string \<Rightarrow> string list \<Rightarrow> string list" where
  "print_line s out = out @ [s @ nl]"

text \<open>The three optional lines of a listed memory; the last formats the score and may
  raise.\<close>

definition print_metadata :: "'s env \<Rightarrow> pydict \<Rightarrow> string list \<Rightarrow> string list" where
  "print_metadata E memory out =
     (let v = dict_get memory ''metadata'' PNone
      in if truthy v then print_line (''   Metadata: '' @ py_str E v) out else out)"

definition print_created :: "'s env \<Rightarrow> pydict \<Rightarrow> string list \<Rightarrow> string list" where
  "print_created E memory out =
     (let v = dict_get memory ''created_at'' PNone
      in if truthy v then print_line (''   Created: '' @ py_str E v) out else out)"

definition print_relevance :: "pydict \<Rightarrow> string list \<Rightarrow> exn option \<times> string list" where
  "print_relevance memory out =
     (let v = dict_get memory ''relevance_score'' PNone
      in if v \<noteq> PNone then
           (case format_2f v of
              Inl e \<Rightarrow> (Some e, out)
            | Inr sc \<Rightarrow> (None, print_line (''   Relevance: '' @ sc) out))
         else (None, out))"

fun print_memory_items ::
  "'s env \<Rightarrow> nat \<Rightarrow> pydict list \<Rightarrow> string list \<Rightarrow> exn option \<times> string list" where
  "print_memory_items E i [] out = (None, out)"
| "print_memory_items E i (memory # rest) out =
     (case map_of memory ''content'' of
        None \<Rightarrow> (Some (KeyError ''content''), out)
      | Some c \<Rightarrow>
          (let out1 = print_line (nl @ show_nat i @ ''. Content: '' @ py_str E c) out;
               out2 = print_metadata E memory out1;
               out3 = print_created E memory out2
           in case print_relevance memory out3 of
                (Some e, out4) \<Rightarrow> (Some e, out4)
              | (None, out4) \<Rightarrow> print_memory_items E (Suc i) rest out4))"

text \<open>\<open>print_memories\<close>.\<close>

definition print_memories ::
  "'s env \<Rightarrow> pydict list \<Rightarrow> string list \<Rightarrow> exn option \<times> string list" where
  "print_memories E memories out =
     (if memories = [] then (None, print_line ''No memories found.'' out)
      else print_memory_items E 1 memories (print_line (nl @ ''Relevant Memories:'') out))"

fun print_profile_items ::
  "'s env \<Rightarrow> nat \<Rightarrow> pydict list \<Rightarrow> string list \<Rightarrow> exn option \<times> string list" where
  "print_profile_items E i [] out = (None, out)"
| "print_profile_items E i (memory # rest) out =
     (case map_of memory ''content'' of
        None \<Rightarrow> (Some (KeyError ''content''), out)
      | Some c \<Rightarrow>
          (let out1 = print_line (nl @ show_nat i @ ''. Content: '' @ py_str E c) out;
               out2 = print_metadata E memory out1;
               out3 = print_created E memory out2
           in print_profile_items E (Suc i) rest out3))"

text \<open>\<open>print_profile\<close>, on the list under the key \<open>recent_memories\<close>.\<close>

definition print_profile ::
  "'s env \<Rightarrow> pydict list \<Rightarrow> string list \<Rightarrow> exn option \<times> string list" where
  "print_profile E recent_memories out =
     (let out1 = print_line (nl @ ''User Profile:'') out
      in if recent_memories = [] then (None, print_line ''No recent memories found.'' out1)
         else print_profile_items E 1 recent_memories (print_line (nl @ ''Recent Memories:'') out1))"

definition command_list :: "string list" where
  "command_list =
     [''  /search <query> - Search memories'' @ nl,
      ''  /profile - View user profile'' @ nl,
      ''  /clear - Clear chat history'' @ nl,
      ''  /exit - Exit the chat'' @ nl]"

definition print_help :: "string list \<Rightarrow> string list" where
  "print_help out = print_line ''Unknown command. Available commands:'' out @ command_list"

text \<open>How the \<open>try\<close> block of one turn ends.\<close>

datatype outcome = Normal | Brk | Exc exn

definition str_exn :: "'s env \<Rightarrow> exn \<Rightarrow> string" where
  "str_exn E e =
     (case e of ValueError m \<Rightarrow> m | FileNotFoundError m \<Rightarrow> m | _ \<Rightarrow> exn_text E e)"

definition opt_text :: "string option \<Rightarrow> string" where
  "opt_text v = (case v of None \<Rightarrow> ''None'' | Some s \<Rightarrow> s)"

text \<open>The \<open>try\<close> block of the loop body (lines 60 to 100), given what \<open>input\<close> returns
  or raises.\<close>

definition try_block ::
  "'s env \<Rightarrow> llm \<Rightarrow> memory_manager \<Rightarrow> exn + string \<Rightarrow> string list \<Rightarrow> 's world
     \<Rightarrow> outcome \<times> string list \<times> 's world" where
  "try_block E L mm inp out w =
     (let out0 = out @ [nl @ ''You: '']
      in case inp of
           Inl e \<Rightarrow> (Exc e, out0, w)
         | Inr line \<Rightarrow>
             (let user_input = strip line
              in if starts_with ''/'' user_input then
                   (case split1 (drop 1 user_input) of
                      [] \<Rightarrow> (Exc IndexError, out0, w)
                    | c0 # args \<Rightarrow>
                        (let cmd = lower c0
                         in if cmd = ''exit'' then (Brk, print_line ''Goodbye!'' out0, w)
                            else if cmd = ''search'' \<and> args \<noteq> [] then
                              (let query = hd args;
                                   out1 = print_line (nl @ ''Searching memories for: '' @ query) out0
                               in case llm_search_memories E L query 5 w of
                                    (Inl e, w') \<Rightarrow> (Exc e, out1, w')
                                  | (Inr memories, w') \<Rightarrow>
                                      (case print_memories E memories out1 of
                                         (Some e, out2) \<Rightarrow> (Exc e, out2, w')
                                       | (None, out2) \<Rightarrow> (Normal, out2, w')))
                            else if cmd = ''profile'' then
                              (case llm_get_user_profile E L w of
                                 (Inl e, w') \<Rightarrow> (Exc e, out0, w')
                               | (Inr profile, w') \<Rightarrow>
                                   (case print_profile E profile out0 of
                                      (Some e, out1) \<Rightarrow> (Exc e, out1, w')
                                    | (None, out1) \<Rightarrow> (Normal, out1, w')))
                            else if cmd = ''clear'' then
                              (case delete_user E mm (user_id L) w of
                                 (Inl e, w') \<Rightarrow> (Exc e, out0, w')
                               | (Inr ok, w') \<Rightarrow>
                                   (Normal,
                                    print_line (if ok then ''Chat history cleared.''
                                                else ''Failed to clear chat history.'') out0,
                                    w'))
                            else (Normal, print_help out0, w)))
                 else
                   (let out1 = out0 @ [nl @ ''Assistant: '']
                    in case drain E L (chat_with_memories user_input None True True) w of
                         (vs, r, w') \<Rightarrow>
                           (let out2 = out1 @ map opt_text vs
                            in case r of
                                 Some e \<Rightarrow> (Exc e, out2, w')
                               | None \<Rightarrow> (Normal, out2 @ [nl], w')))))"

text \<open>What one turn of the \<open>while True\<close> loop tells the loop to do.\<close>

datatype ctl = Continue | Break | Propagate exn

text \<open>One turn: the \<open>try\<close> block and its two handlers.\<close>

definition shell_turn ::
  "'s env \<Rightarrow> llm \<Rightarrow> memory_manager \<Rightarrow> exn + string \<Rightarrow> string list \<Rightarrow> 's world
     \<Rightarrow> ctl \<times> string list \<times> 's world" where
  "shell_turn E L mm inp out w =
     (case try_block E L mm inp out w of
        (Normal, out', w') \<Rightarrow> (Continue, out', w')
      | (Brk, out', w') \<Rightarrow> (Break, out', w')
      | (Exc e, out', w') \<Rightarrow>
          if e = KeyboardInterrupt then (Break, print_line (nl @ ''Goodbye!'') out', w')
          else if is_Exception e then (Continue, print_line (nl @ ''Error: '' @ str_exn E e) out', w')
          else (Propagate e, out', w'))"

text \<open>The loop: one turn per input, until a turn breaks out of it, an exception leaves it,
  or the inputs given are used up (the shell then waits for the next line).\<close>

fun shell_loop ::
  "'s env \<Rightarrow> llm \<Rightarrow> memory_manager \<Rightarrow> (exn + string) list \<Rightarrow> string list \<Rightarrow> 's world
     \<Rightarrow> ctl \<times> string list \<times> 's world" where
  "shell_loop E L mm [] out w = (Continue, out, w)"
| "shell_loop E L mm (inp # inps) out w =
     (case shell_turn E L mm inp out w of
        (Continue, out', w') \<Rightarrow> shell_loop E L mm inps out' w'
      | (c, out', w') \<Rightarrow> (c, out', w'))"

section \<open>A concrete session\<close>

text \<open>
  A small store for trying the operations out: its state is the list of the turns written,
  each with its user; a search returns one memory without a score.  The completion client
  answers every request the same way.
\<close>

definition demo_env :: "(string \<times> message list) list env" where
  "demo_env =
     \<lparr> mem_search = (\<lambda>s q u lim. Inr (take (nat lim) [[(''memory'', PStr ''likes coffee'')]])),
       mem_add = (\<lambda>s msgs u. (None, s @ [(u, msgs)])),
       mem_clear = (\<lambda>s u. (None, filter (\<lambda>p. fst p \<noteq> u) s)),
       create = (\<lambda>c r. Inr [Some ''Noted.'']),
       create_stream = (\<lambda>c r. Inr [Chunk [Some ''Hel''], Chunk [None], Chunk [Some ''lo'']]),
       py_repr = (\<lambda>v. ''{}''),
       exn_text = (\<lambda>e. ''error'') \<rparr>"

definition demo_manager :: memory_manager where
  "demo_manager = \<lparr> mm_config = \<lparr> search_limit = 5, context_limit = 3 \<rparr> \<rparr>"

definition demo_config :: llm_config where
  "demo_config =
     \<lparr> api_key = ''k'', api_base = ''b'', model = ''m1'', temperature = 1 / 2,
       max_tokens = 2000, top_p = 1, system_prompt = ''Be brief.'' \<rparr>"

definition demo_llm :: llm where
  "demo_llm =
     \<lparr> provider = ''silicon_flow'', memory_manager = Some demo_manager, user_id = ''demo_user'',
       config = demo_config, client = \<lparr> client_api_key = ''k'', base_url = ''b'' \<rparr> \<rparr>"

definition demo_world :: "(string \<times> message list) list world" where
  "demo_world = \<lparr> store = [], calls = [] \<rparr>"

section \<open>Configuration files\<close>

text \<open>
  A provider entry is well typed when it gives the three required fields as strings and
  each of the other four fields, if it gives it at all, as a value of the annotated type.
\<close>

definition has_str :: "pydict \<Rightarrow> string \<Rightarrow> bool" where
  "has_str kw k = (case map_of kw k of Some (PStr s) \<Rightarrow> True | _ \<Rightarrow> False)"

definition opt_str :: "pydict \<Rightarrow> string \<Rightarrow> bool" where
  "opt_str kw k = (case map_of kw k of None \<Rightarrow> True | Some (PStr s) \<Rightarrow> True | _ \<Rightarrow> False)"

definition opt_float :: "pydict \<Rightarrow> string \<Rightarrow> bool" where
  "opt_float kw k = (case map_of kw k of None \<Rightarrow> True | Some (PFloat r) \<Rightarrow> True | _ \<Rightarrow> False)"

definition opt_int :: "pydict \<Rightarrow> string \<Rightarrow> bool" where
  "opt_int kw k = (case map_of kw k of None \<Rightarrow> True | Some (PInt i) \<Rightarrow> True | _ \<Rightarrow> False)"

definition well_typed_entry :: "pydict \<Rightarrow> bool" where
  "well_typed_entry kw =
     (has_str kw ''api_key'' \<and> has_str kw ''api_base'' \<and> has_str kw ''model''
      \<and> opt_float kw ''temperature'' \<and> opt_int kw ''max_tokens'' \<and> opt_float kw ''top_p''
      \<and> opt_str kw ''system_prompt'')"

text \<open>Validators that accept a value of the annotated type as it is, which every version
  of the schema library does.\<close>

definition accepts_typed :: "validators \<Rightarrow> bool" where
  "accepts_typed V =
     ((\<forall>s. v_str V (PStr s) = Some s) \<and> (\<forall>r. v_float V (PFloat r) = Some r)
      \<and> (\<forall>i. v_int V (PInt i) = Some i))"

text \<open>A host whose only file is \<open>config.yaml\<close>, beside the module, with the given
  contents, and whose client constructor rejects an empty key.\<close>

definition config_file :: "pyval \<Rightarrow> host" where
  "config_file v =
     \<lparr> files = (\<lambda>p. if p = ''config.yaml'' then Some (Inr v) else None),
       default_config_path = ''config.yaml'',
       uuid4 = ''0f8fad5b-d9cb-469f-a165-70867728950e'',
       pydantic = exact_validators,
       openai = (\<lambda>k b. if k = [] then Inl (OtherException ''The api_key client option must be set'')
                        else Inr \<lparr> client_api_key = k, base_url = b \<rparr>) \<rparr>"

text \<open>A file whose provider \<open>test\<close> gives a model and a temperature only, and one whose
  provider \<open>test\<close> gives the credentials as well.\<close>

definition scenario_config :: pyval where
  "scenario_config =
     PDict [(''providers'',
             PDict [(''test'', PDict [(''model'', PStr ''m1''), (''temperature'', PFloat (1 / 2))])])]"

definition complete_config :: pyval where
  "complete_config =
     PDict [(''providers'',
             PDict [(''test'',
                     PDict [(''api_key'', PStr ''sk-1''), (''api_base'', PStr ''https://api''),
                            (''model'', PStr ''m1''), (''temperature'', PFloat (1 / 2))])])]"

section \<open>Generator objects that store\<close>

text \<open>Whether a generator object was created with \<open>store_memory\<close> set.\<close>

fun wants_store :: "gen \<Rightarrow> bool" where
  "wants_store (Created msg uid sm st) = sm"
| "wants_store (Streaming msgs uid sm coll items) = sm"
| "wants_store Replied = False"
| "wants_store Finished = False"

section \<open>Memory Manager: properties\<close>

text \<open>
  C3.  \<open>search_memories\<close> issues exactly one call to the store, a search for the given
  query and user whose limit is the smaller of the requested count and the configured
  search limit; it leaves the store as it was.  This holds whatever the store answers,
  also when the search or the reshaping of a result raises.
\<close>

theorem search_memories_single_search:
  "calls (snd (mm_search_memories E mm uid q n w))
     = calls w @ [SearchCall q uid (min n (search_limit (mm_config mm)))]
   \<and> store (snd (mm_search_memories E mm uid q n w)) = store w"
  by (simp add: mm_search_memories_def issue_def Let_def split: sum.splits)

theorem search_memories_single_search_witness:
  "calls (snd (mm_search_memories demo_env demo_manager ''u'' ''coffee'' 10 demo_world))
     = [SearchCall ''coffee'' ''u'' 5]
   \<and> calls (snd (mm_search_memories demo_env demo_manager ''u'' ''coffee'' 2 demo_world))
     = [SearchCall ''coffee'' ''u'' 2]"
  using search_memories_single_search [of demo_env demo_manager "''u''" "''coffee''" 10 demo_world]
        search_memories_single_search [of demo_env demo_manager "''u''" "''coffee''" 2 demo_world]
  by (simp add: demo_manager_def demo_world_def)

text \<open>
  C5.  \<open>delete_user\<close> always returns a boolean and never raises: \<open>True\<close> when the store's
  \<open>clear\<close> raised nothing, \<open>False\<close> when it raised any exception.  It issues the one
  \<open>clear\<close> call for the user.
\<close>

theorem delete_user_never_raises:
  "fst (delete_user E mm uid w) = Inr (fst (mem_clear E (store w) uid) = None)
   \<and> calls (snd (delete_user E mm uid w)) = calls w @ [ClearCall uid]"
  by (simp add: delete_user_def issue_def Let_def split: prod.splits option.splits)

theorem delete_user_never_raises_witness:
  "fst (delete_user (demo_env\<lparr>mem_clear := (\<lambda>s u. (Some (OtherException ''store down''), s))\<rparr>)
          demo_manager ''demo_user'' demo_world) = Inr False
   \<and> fst (delete_user (demo_env\<lparr>mem_clear := (\<lambda>s u. (Some KeyboardInterrupt, s))\<rparr>)
          demo_manager ''demo_user'' demo_world) = Inr False
   \<and> fst (delete_user demo_env demo_manager ''demo_user'' demo_world) = Inr True"
  using delete_user_never_raises
          [of "demo_env\<lparr>mem_clear := (\<lambda>s u. (Some (OtherException ''store down''), s))\<rparr>"
              demo_manager "''demo_user''" demo_world]
        delete_user_never_raises
          [of "demo_env\<lparr>mem_clear := (\<lambda>s u. (Some KeyboardInterrupt, s))\<rparr>"
              demo_manager "''demo_user''" demo_world]
        delete_user_never_raises [of demo_env demo_manager "''demo_user''" demo_world]
  by (simp add: demo_env_def)

text \<open>
  C8.  Two calls of \<open>get_context\<close> for the same user in the same state that differ in
  \<open>max_token_size\<close> and \<open>prefer_topics\<close> only return the same string (or raise the same
  exception) and issue the same single search, for \<open>"summary"\<close> with the configured
  context limit: the two parameters have no effect.
\<close>

theorem get_context_ignores_size_and_topics:
  "get_context E mm uid size1 topics1 w = get_context E mm uid size2 topics2 w
   \<and> calls (snd (get_context E mm uid size1 topics1 w))
       = calls w @ [SearchCall ''summary'' uid (context_limit (mm_config mm))]"
  by (simp add: get_context_def issue_def Let_def split: sum.splits)

theorem get_context_ignores_size_and_topics_witness:
  "get_context demo_env demo_manager ''u'' 1 (Some [''tea'']) demo_world
     = (Inr (''Recent context:'' @ nl @ ''- likes coffee (Metadata: {})''),
        \<lparr> store = [], calls = [SearchCall ''summary'' ''u'' 3] \<rparr>)"
proof -
  have "get_context demo_env demo_manager ''u'' 500 None demo_world
          = (Inr (''Recent context:'' @ nl @ ''- likes coffee (Metadata: {})''),
             \<lparr> store = [], calls = [SearchCall ''summary'' ''u'' 3] \<rparr>)"
    by code_simp
  with get_context_ignores_size_and_topics
         [of demo_env demo_manager "''u''" 1 "Some [''tea'']" demo_world 500 None]
  show ?thesis by simp
qed

section \<open>Chat Orchestrator: properties\<close>

text \<open>
  C4.  On an orchestrator without a Memory Manager each memory-dependent operation fails
  with \<open>ValueError("Memory manager not initialized")\<close> and issues no call, to the store or
  to the completion client: the state it ends in is the state it started in.  For
  \<open>chat_with_memories\<close>, a generator, the failure is the result of the first request for
  a value, whatever the arguments.
\<close>

theorem memory_not_configured:
  assumes "memory_manager L = None"
  shows "gen_next E L (chat_with_memories msg uid sm st) w
           = (Raise (ValueError ''Memory manager not initialized''), Finished, w)
         \<and> gen_steps E L (Suc n) (chat_with_memories msg uid sm st) w
           = ([Raise (ValueError ''Memory manager not initialized'')], Finished, w)
         \<and> drain E L (chat_with_memories msg uid sm st) w
           = ([], Some (ValueError ''Memory manager not initialized''), w)
         \<and> llm_get_user_profile E L w = (Inl (ValueError ''Memory manager not initialized''), w)
         \<and> llm_search_memories E L q k w = (Inl (ValueError ''Memory manager not initialized''), w)"
  using assms
  by (simp add: chat_with_memories_def chat_start_def llm_get_user_profile_def
        llm_search_memories_def memory_not_initialized_def drain.simps)

theorem memory_not_configured_witness:
  "memory_manager (demo_llm\<lparr>memory_manager := None\<rparr>) = None
   \<and> drain demo_env (demo_llm\<lparr>memory_manager := None\<rparr>)
        (chat_with_memories ''hi'' None True True) demo_world
       = ([], Some (ValueError ''Memory manager not initialized''), demo_world)
   \<and> llm_get_user_profile demo_env (demo_llm\<lparr>memory_manager := None\<rparr>) demo_world
       = (Inl (ValueError ''Memory manager not initialized''), demo_world)
   \<and> llm_search_memories demo_env (demo_llm\<lparr>memory_manager := None\<rparr>) ''coffee'' 5 demo_world
       = (Inl (ValueError ''Memory manager not initialized''), demo_world)"
proof -
  have h: "memory_manager (demo_llm\<lparr>memory_manager := None\<rparr>) = None" by simp
  show ?thesis
    using h memory_not_configured
              [OF h, of demo_env "''hi''" None True True demo_world 0 "''coffee''" 5]
    by simp
qed

section \<open>Configuration loader: properties\<close>

lemma required_str:
  assumes "accepts_typed V" and "has_str kw k"
  shows "\<exists>a. required (v_str V) kw k = Inr a \<and> map_of kw k = Some (PStr a)"
  using assms
  by (auto simp: required_def accepts_typed_def has_str_def split: option.splits pyval.splits)

lemma optional_str:
  assumes "accepts_typed V" and "opt_str kw k"
  shows "\<exists>a. optional (v_str V) kw k d = Inr a
           \<and> (case map_of kw k of None \<Rightarrow> a = d | Some v \<Rightarrow> v = PStr a)"
  using assms
  by (auto simp: optional_def accepts_typed_def opt_str_def split: option.splits pyval.splits)

lemma optional_float:
  assumes "accepts_typed V" and "opt_float kw k"
  shows "\<exists>a. optional (v_float V) kw k d = Inr a
           \<and> (case map_of kw k of None \<Rightarrow> a = d | Some v \<Rightarrow> v = PFloat a)"
  using assms
  by (auto simp: optional_def accepts_typed_def opt_float_def split: option.splits pyval.splits)

lemma optional_int:
  assumes "accepts_typed V" and "opt_int kw k"
  shows "\<exists>a. optional (v_int V) kw k d = Inr a
           \<and> (case map_of kw k of None \<Rightarrow> a = d | Some v \<Rightarrow> v = PInt a)"
  using assms
  by (auto simp: optional_def accepts_typed_def opt_int_def split: option.splits pyval.splits)

lemma LLMConfig_all_valid:
  assumes "required (v_str V) kw ''api_key'' = Inr k"
    and "required (v_str V) kw ''api_base'' = Inr b"
    and "required (v_str V) kw ''model'' = Inr m"
    and "optional (v_float V) kw ''temperature'' (7 / 10) = Inr t"
    and "optional (v_int V) kw ''max_tokens'' 2000 = Inr n"
    and "optional (v_float V) kw ''top_p'' 1 = Inr tp"
    and "optional (v_str V) kw ''system_prompt'' default_system_prompt = Inr sp"
  shows "LLMConfig V kw
           = Inr \<lparr> api_key = k, api_base = b, model = m, temperature = t,
                   max_tokens = n, top_p = tp, system_prompt = sp \<rparr>"
  unfolding LLMConfig_def Let_def using assms by simp

lemma LLMConfig_well_typed:
  assumes V: "accepts_typed V" and wt: "well_typed_entry kw"
  shows "\<exists>c. LLMConfig V kw = Inr c
           \<and> map_of kw ''api_key'' = Some (PStr (api_key c))
           \<and> map_of kw ''api_base'' = Some (PStr (api_base c))
           \<and> map_of kw ''model'' = Some (PStr (model c))
           \<and> (case map_of kw ''temperature'' of
                 None \<Rightarrow> temperature c = 7 / 10 | Some v \<Rightarrow> v = PFloat (temperature c))
           \<and> (case map_of kw ''max_tokens'' of
                 None \<Rightarrow> max_tokens c = 2000 | Some v \<Rightarrow> v = PInt (max_tokens c))
           \<and> (case map_of kw ''top_p'' of
                 None \<Rightarrow> top_p c = 1 | Some v \<Rightarrow> v = PFloat (top_p c))
           \<and> (case map_of kw ''system_prompt'' of
                 None \<Rightarrow> system_prompt c = default_system_prompt
               | Some v \<Rightarrow> v = PStr (system_prompt c))"
proof -
  from wt have w: "has_str kw ''api_key''" "has_str kw ''api_base''" "has_str kw ''model''"
    "opt_float kw ''temperature''" "opt_int kw ''max_tokens''" "opt_float kw ''top_p''"
    "opt_str kw ''system_prompt''"
    unfolding well_typed_entry_def by blast+
  from required_str [OF V w(1)] obtain k where
    k: "required (v_str V) kw ''api_key'' = Inr k" "map_of kw ''api_key'' = Some (PStr k)" by blast
  from required_str [OF V w(2)] obtain b where
    b: "required (v_str V) kw ''api_base'' = Inr b" "map_of kw ''api_base'' = Some (PStr b)" by blast
  from required_str [OF V w(3)] obtain m where
    m: "required (v_str V) kw ''model'' = Inr m" "map_of kw ''model'' = Some (PStr m)" by blast
  from optional_float [OF V w(4), of "7 / 10"] obtain t where
    t: "optional (v_float V) kw ''temperature'' (7 / 10) = Inr t"
       "case map_of kw ''temperature'' of None \<Rightarrow> t = 7 / 10 | Some v \<Rightarrow> v = PFloat t" by blast
  from optional_int [OF V w(5), of 2000] obtain n where
    n: "optional (v_int V) kw ''max_tokens'' 2000 = Inr n"
       "case map_of kw ''max_tokens'' of None \<Rightarrow> n = 2000 | Some v \<Rightarrow> v = PInt n" by blast
  from optional_float [OF V w(6), of 1] obtain tp where
    tp: "optional (v_float V) kw ''top_p'' 1 = Inr tp"
        "case map_of kw ''top_p'' of None \<Rightarrow> tp = 1 | Some v \<Rightarrow> v = PFloat tp" by blast
  from optional_str [OF V w(7), of default_system_prompt] obtain sp where
    sp: "optional (v_str V) kw ''system_prompt'' default_system_prompt = Inr sp"
        "case map_of kw ''system_prompt'' of None \<Rightarrow> sp = default_system_prompt | Some v \<Rightarrow> v = PStr sp"
    by blast
  have "LLMConfig V kw
          = Inr \<lparr> api_key = k, api_base = b, model = m, temperature = t,
                  max_tokens = n, top_p = tp, system_prompt = sp \<rparr>"
    by (rule LLMConfig_all_valid [OF k(1) b(1) m(1) t(1) n(1) tp(1) sp(1)])
  with k(2) b(2) m(2) t(2) n(2) tp(2) sp(2) show ?thesis by (simp split: option.splits)
qed

lemma LLM_init_found:
  assumes "files H (case config_path of None \<Rightarrow> default_config_path H | Some p \<Rightarrow> p)
             = Some (Inr (PDict cfg))"
    and "map_of cfg ''providers'' = Some (PDict provs)"
    and "map_of provs prov = Some (PDict kw)"
    and "LLMConfig (pydantic H) kw = Inr c"
  shows "LLM_init H prov mm uid config_path
           = (case openai H (api_key c) (api_base c) of
                Inl e \<Rightarrow> Inl e
              | Inr cl \<Rightarrow>
                  Inr \<lparr> provider = prov, memory_manager = mm, user_id = str_or uid (uuid4 H),
                        config = c, client = cl \<rparr>)"
  using assms by (simp add: LLM_init_def Let_def)

lemma LLMConfig_missing_required:
  assumes "map_of kw ''api_key'' = None \<or> map_of kw ''api_base'' = None \<or> map_of kw ''model'' = None"
  shows "\<exists>errs. LLMConfig V kw = Inl (ValidationError errs)"
  using assms
  by (auto simp: LLMConfig_def Let_def required_def split: sum.splits)

text \<open>
  C6 as stated fails: a provider entry that gives only \<open>model\<close> and \<open>temperature\<close> is
  rejected by the schema, since \<open>api_key\<close> and \<open>api_base\<close> have no default.
\<close>

theorem scenario_entry_rejected:
  "LLM_init (config_file scenario_config) ''test'' None None None
     = Inl (ValidationError [(''api_key'', Missing), (''api_base'', Missing)])"
  by (simp add: LLM_init_def config_file_def scenario_config_def LLMConfig_def Let_def
        required_def optional_def problem_of_def exact_validators_def)

text \<open>
  C6, amended.  For a configuration file whose entry for the requested provider is well
  typed (in particular, gives \<open>api_key\<close>, \<open>api_base\<close> and \<open>model\<close>) and whose
  credentials the client constructor accepts, the constructor of the orchestrator succeeds
  and every field of the profile is the file's value, or the declared default when the
  file omits it: 0.7 for \<open>temperature\<close>, 2000 for \<open>max_tokens\<close>, 1.0 for \<open>top_p\<close>, the
  default prompt for \<open>system_prompt\<close>.
\<close>

theorem provider_profile_loaded:
  assumes "files H (case config_path of None \<Rightarrow> default_config_path H | Some p \<Rightarrow> p)
             = Some (Inr (PDict cfg))"
    and "map_of cfg ''providers'' = Some (PDict provs)"
    and "map_of provs prov = Some (PDict kw)"
    and "accepts_typed (pydantic H)"
    and "well_typed_entry kw"
    and "map_of kw ''api_key'' = Some (PStr k)"
    and "map_of kw ''api_base'' = Some (PStr b)"
    and "openai H k b = Inr cl"
  shows "\<exists>l. LLM_init H prov mm uid config_path = Inr l
           \<and> provider l = prov \<and> client l = cl
           \<and> api_key (config l) = k
           \<and> api_base (config l) = b
           \<and> map_of kw ''model'' = Some (PStr (model (config l)))
           \<and> (case map_of kw ''temperature'' of
                 None \<Rightarrow> temperature (config l) = 7 / 10
               | Some v \<Rightarrow> v = PFloat (temperature (config l)))
           \<and> (case map_of kw ''max_tokens'' of
                 None \<Rightarrow> max_tokens (config l) = 2000
               | Some v \<Rightarrow> v = PInt (max_tokens (config l)))
           \<and> (case map_of kw ''top_p'' of
                 None \<Rightarrow> top_p (config l) = 1
               | Some v \<Rightarrow> v = PFloat (top_p (config l)))
           \<and> (case map_of kw ''system_prompt'' of
                 None \<Rightarrow> system_prompt (config l)
                   = ''You are a helpful AI assistant. Use the provided memories to give context-aware responses.''
               | Some v \<Rightarrow> v = PStr (system_prompt (config l)))"
proof -
  from LLMConfig_well_typed [OF assms(4) assms(5)] obtain c where
    c: "LLMConfig (pydantic H) kw = Inr c" and
    fields: "map_of kw ''api_key'' = Some (PStr (api_key c))
           \<and> map_of kw ''api_base'' = Some (PStr (api_base c))
           \<and> map_of kw ''model'' = Some (PStr (model c))
           \<and> (case map_of kw ''temperature'' of
                 None \<Rightarrow> temperature c = 7 / 10 | Some v \<Rightarrow> v = PFloat (temperature c))
           \<and> (case map_of kw ''max_tokens'' of
                 None \<Rightarrow> max_tokens c = 2000 | Some v \<Rightarrow> v = PInt (max_tokens c))
           \<and> (case map_of kw ''top_p'' of
                 None \<Rightarrow> top_p c = 1 | Some v \<Rightarrow> v = PFloat (top_p c))
           \<and> (case map_of kw ''system_prompt'' of
                 None \<Rightarrow> system_prompt c = default_system_prompt
               | Some v \<Rightarrow> v = PStr (system_prompt c))"
    by blast
  from fields assms(6,7) have kb: "api_key c = k" "api_base c = b" by simp_all
  from LLM_init_found [OF assms(1) assms(2) assms(3) c, of mm uid] kb assms(8)
  have "LLM_init H prov mm uid config_path
          = Inr \<lparr> provider = prov, memory_manager = mm, user_id = str_or uid (uuid4 H),
                  config = c, client = cl \<rparr>" by simp
  with fields kb show ?thesis by (simp add: default_system_prompt_def split: option.splits)
qed

theorem provider_profile_loaded_witness:
  "\<exists>l. LLM_init (config_file complete_config) ''test'' None None None = Inr l
        \<and> client l = \<lparr> client_api_key = ''sk-1'', base_url = ''https://api'' \<rparr>
        \<and> api_key (config l) = ''sk-1'' \<and> api_base (config l) = ''https://api''
        \<and> model (config l) = ''m1'' \<and> temperature (config l) = 1 / 2
        \<and> max_tokens (config l) = 2000 \<and> top_p (config l) = 1
        \<and> system_prompt (config l)
            = ''You are a helpful AI assistant. Use the provided memories to give context-aware responses.''"
proof -
  let ?kw = "[(''api_key'', PStr ''sk-1''), (''api_base'', PStr ''https://api''),
              (''model'', PStr ''m1''), (''temperature'', PFloat (1 / 2))]"
  let ?provs = "[(''test'', PDict ?kw)]"
  let ?cfg = "[(''providers'', PDict ?provs)]"
  have f: "files (config_file complete_config)
             (case None of None \<Rightarrow> default_config_path (config_file complete_config) | Some p \<Rightarrow> p)
           = Some (Inr (PDict ?cfg))"
    by (simp add: config_file_def complete_config_def)
  have p: "map_of ?cfg ''providers'' = Some (PDict ?provs)" by simp
  have e: "map_of ?provs ''test'' = Some (PDict ?kw)" by simp
  have v: "accepts_typed (pydantic (config_file complete_config))"
    by (simp add: accepts_typed_def config_file_def exact_validators_def)
  have w: "well_typed_entry ?kw"
    by (simp add: well_typed_entry_def has_str_def opt_str_def opt_float_def opt_int_def)
  have k: "map_of ?kw ''api_key'' = Some (PStr ''sk-1'')" by simp
  have b: "map_of ?kw ''api_base'' = Some (PStr ''https://api'')" by simp
  have o: "openai (config_file complete_config) ''sk-1'' ''https://api''
             = Inr \<lparr> client_api_key = ''sk-1'', base_url = ''https://api'' \<rparr>"
    by (simp add: config_file_def)
  from provider_profile_loaded [OF f p e v w k b o, of None None]
  show ?thesis by auto
qed

text \<open>When the client constructor rejects the credentials of a well-typed entry, its
  exception leaves the constructor of the orchestrator.\<close>

lemma client_rejection_propagates:
  assumes "files H (case config_path of None \<Rightarrow> default_config_path H | Some p \<Rightarrow> p)
             = Some (Inr (PDict cfg))"
    and "map_of cfg ''providers'' = Some (PDict provs)"
    and "map_of provs prov = Some (PDict kw)"
    and "accepts_typed (pydantic H)"
    and "well_typed_entry kw"
    and "map_of kw ''api_key'' = Some (PStr k)"
    and "map_of kw ''api_base'' = Some (PStr b)"
    and "openai H k b = Inl e"
  shows "LLM_init H prov mm uid config_path = Inl e"
proof -
  from LLMConfig_well_typed [OF assms(4) assms(5)] obtain c where
    c: "LLMConfig (pydantic H) kw = Inr c" and
    "map_of kw ''api_key'' = Some (PStr (api_key c))"
    "map_of kw ''api_base'' = Some (PStr (api_base c))"
    by blast
  with assms(6,7) have "api_key c = k" "api_base c = b" by simp_all
  with LLM_init_found [OF assms(1) assms(2) assms(3) c, of mm uid] assms(8)
  show ?thesis by simp
qed



section \<open>Chat Orchestrator: what a turn writes to the store\<close>

text \<open>What one pass through the streaming loop can do: hand the next fragment to the
  caller and suspend, without touching the store; raise because the stream broke, again
  without touching the store; or find the stream exhausted and end, after the one write
  when \<open>store_memory\<close> is set.\<close>

lemma store_turn_calls:
  "store_turn E msgs reply uid w = (r, w') \<Longrightarrow>
     calls w' = calls w @ [AddCall (msgs @ [assistant reply]) uid]"
  by (auto simp: store_turn_def issue_def Let_def split: prod.splits)

lemma stream_loop_cases:
  assumes "stream_loop E msgs uid sm coll items w = (r, g', w')"
  shows "(\<exists>s rest. r = Yield (Some s) \<and> g' = Streaming msgs uid sm (coll @ [s]) rest \<and> w' = w
            \<and> stream_fragments items = map_option ((#) s) (stream_fragments rest))
       \<or> (\<exists>e. r = Raise e \<and> g' = Finished \<and> w' = w \<and> stream_fragments items = None)
       \<or> (\<not> sm \<and> r = Stop \<and> g' = Finished \<and> w' = w \<and> stream_fragments items = Some [])
       \<or> (sm \<and> g' = Finished \<and> stream_fragments items = Some []
            \<and> (\<exists>ro. store_turn E msgs (Some (concat coll)) uid w = (ro, w')
                      \<and> r = (case ro of None \<Rightarrow> Stop | Some e \<Rightarrow> Raise e)))"
  using assms
proof (induction items)
  case Nil
  then show ?case by (auto split: prod.splits option.splits if_splits)
next
  case (Cons it items)
  show ?case
  proof (cases it)
    case (StreamError e)
    with Cons.prems show ?thesis by auto
  next
    case (Chunk cs)
    show ?thesis
    proof (cases cs)
      case Nil
      with Chunk Cons.prems show ?thesis by auto
    next
      case (Cons c cs')
      show ?thesis
      proof (cases "\<exists>s. c = Some s \<and> s \<noteq> []")
        case True
        then obtain s where "c = Some s" "s \<noteq> []" by blast
        with Chunk Cons Cons.prems show ?thesis
          by (cases "stream_fragments items") auto
      next
        case False
        with Chunk Cons Cons.prems
        have rec: "stream_loop E msgs uid sm coll items w = (r, g', w')"
          by (auto split: option.splits if_splits)
        from False Chunk Cons
        have fr: "stream_fragments (it # items) = stream_fragments items"
          by (cases "stream_fragments items") (auto split: option.splits)
        from Cons.IH [OF rec] fr show ?thesis by simp
      qed
    qed
  qed
qed

lemma chat_start_no_store:
  assumes "chat_start E L msg u False st w = (r, g', w')"
  shows "\<not> wants_store g' \<and> store w' = store w
         \<and> (\<exists>new. calls w' = calls w @ new \<and> (\<forall>c\<in>set new. \<not> is_write c))"
proof (cases st)
  case True
  with assms show ?thesis
    by (auto simp: chat_start_def Let_def issue_def
          split: option.splits sum.splits list.splits dest!: stream_loop_cases)
next
  case False
  with assms show ?thesis
    by (auto simp: chat_start_def Let_def issue_def
          split: option.splits sum.splits list.splits)
qed

lemma gen_next_no_store:
  assumes "\<not> wants_store g" and "gen_next E L g w = (r, g', w')"
  shows "\<not> wants_store g' \<and> store w' = store w
         \<and> (\<exists>new. calls w' = calls w @ new \<and> (\<forall>c\<in>set new. \<not> is_write c))"
proof (cases g)
  case (Created msg u sm st)
  with assms show ?thesis by (auto dest: chat_start_no_store)
next
  case (Streaming msgs uid sm coll items)
  with assms show ?thesis by (auto dest!: stream_loop_cases)
next
  case Replied
  with assms show ?thesis by auto
next
  case Finished
  with assms show ?thesis by auto
qed

lemma gen_steps_no_store:
  assumes "\<not> wants_store g" and "gen_steps E L n g w = (rs, g', w')"
  shows "store w' = store w
         \<and> (\<exists>new. calls w' = calls w @ new \<and> (\<forall>c\<in>set new. \<not> is_write c))"
  using assms
proof (induction n arbitrary: g w rs g' w')
  case 0
  then show ?case by simp
next
  case (Suc n)
  obtain r g1 w1 where nx: "gen_next E L g w = (r, g1, w1)" by (cases "gen_next E L g w") auto
  from gen_next_no_store [OF Suc.prems(1) nx]
  obtain new1 where g1: "\<not> wants_store g1" and s1: "store w1 = store w"
    and c1: "calls w1 = calls w @ new1" "\<forall>c\<in>set new1. \<not> is_write c" by blast
  show ?case
  proof (cases r)
    case (Yield v)
    obtain rs2 g2 w2 where st: "gen_steps E L n g1 w1 = (rs2, g2, w2)"
      by (cases "gen_steps E L n g1 w1") auto
    from Suc.IH [OF g1 st] obtain new2 where s2: "store w2 = store w1"
      and c2: "calls w2 = calls w1 @ new2" "\<forall>c\<in>set new2. \<not> is_write c" by blast
    from Suc.prems(2) nx Yield st have "w' = w2" by simp
    with s1 s2 c1 c2 show ?thesis by auto
  next
    case Stop
    with Suc.prems(2) nx have "w' = w1" by simp
    with s1 c1 show ?thesis by auto
  next
    case (Raise e)
    with Suc.prems(2) nx have "w' = w1" by simp
    with s1 c1 show ?thesis by auto
  qed
qed

lemma drain_is_gen_steps:
  "\<exists>n rs g'. gen_steps E L n g w = (rs, g', snd (snd (drain E L g w)))
             \<and> yielded rs = fst (drain E L g w)"
proof (induction E L g w rule: drain.induct)
  case (1 E L g w)
  obtain r g1 w1 where nx: "gen_next E L g w = (r, g1, w1)" by (cases "gen_next E L g w") auto
  show ?case
  proof (cases r)
    case (Yield v)
    from "1.IH" [OF nx [symmetric, unfolded Yield] refl]
    obtain n rs g' where st: "gen_steps E L n g1 w1 = (rs, g', snd (snd (drain E L g1 w1)))"
      and y: "yielded rs = fst (drain E L g1 w1)" by blast
    obtain vs ro w2 where d: "drain E L g1 w1 = (vs, ro, w2)" by (cases "drain E L g1 w1") auto
    have "gen_steps E L (Suc n) g w = (Yield v # rs, g', snd (snd (drain E L g w)))"
      using nx Yield st d by (simp add: drain.simps [of E L g w])
    moreover have "yielded (Yield v # rs) = fst (drain E L g w)"
      using nx Yield y d by (simp add: drain.simps [of E L g w])
    ultimately show ?thesis by blast
  next
    case Stop
    with nx have "gen_steps E L (Suc 0) g w = ([Stop], g1, snd (snd (drain E L g w)))"
      "yielded [Stop :: string option step] = fst (drain E L g w)"
      by (simp_all add: drain.simps [of E L g w])
    then show ?thesis by blast
  next
    case (Raise e)
    with nx have "gen_steps E L (Suc 0) g w = ([Raise e], g1, snd (snd (drain E L g w)))"
      "yielded [Raise e :: string option step] = fst (drain E L g w)"
      by (simp_all add: drain.simps [of E L g w])
    then show ?thesis by blast
  qed
qed

text \<open>
  C2.  With \<open>store_memory=False\<close>, in the streaming and in the non-streaming mode, and
  however many values the caller asks for, the turn issues no write call (no \<open>add\<close>, no
  \<open>clear\<close>) and leaves the state of the store as it found it; the calls it issues are
  the search and the completion request.
\<close>

theorem no_write_without_store_memory:
  assumes "gen_steps E L n (chat_with_memories msg uid False st) w = (rs, g', w')"
  shows "store w' = store w
         \<and> (\<exists>new. calls w' = calls w @ new \<and> (\<forall>c\<in>set new. \<not> is_write c))"
  using gen_steps_no_store [OF _ assms [unfolded chat_with_memories_def]] by simp

theorem no_write_without_store_memory_witness:
  "gen_steps demo_env demo_llm 3 (chat_with_memories ''hi'' None False True) demo_world
     = ([Yield (Some ''Hel''), Yield (Some ''lo''), Stop], Finished,
        \<lparr> store = [],
          calls = [SearchCall ''hi'' ''demo_user'' 3,
                   CreateCall (client demo_llm)
                     (chat_request demo_llm
                        (prompt_messages demo_llm [''- likes coffee (Relevance: 0.00)''] ''hi'') True)] \<rparr>)
   \<and> gen_steps demo_env demo_llm 2 (chat_with_memories ''hi'' None False False) demo_world
     = ([Yield (Some ''Noted.''), Stop], Finished,
        \<lparr> store = [],
          calls = [SearchCall ''hi'' ''demo_user'' 3,
                   CreateCall (client demo_llm)
                     (chat_request demo_llm
                        (prompt_messages demo_llm [''- likes coffee (Relevance: 0.00)''] ''hi'') False)] \<rparr>)
   \<and> store \<lparr> store = [] :: (string \<times> message list) list,
              calls = [SearchCall ''hi'' ''demo_user'' 3,
                   CreateCall (client demo_llm)
                     (chat_request demo_llm
                        (prompt_messages demo_llm [''- likes coffee (Relevance: 0.00)''] ''hi'') True)] \<rparr>
       = store demo_world"
proof -
  have run1: "gen_steps demo_env demo_llm 3 (chat_with_memories ''hi'' None False True) demo_world
     = ([Yield (Some ''Hel''), Yield (Some ''lo''), Stop], Finished,
        \<lparr> store = [],
          calls = [SearchCall ''hi'' ''demo_user'' 3,
                   CreateCall (client demo_llm)
                     (chat_request demo_llm
                        (prompt_messages demo_llm [''- likes coffee (Relevance: 0.00)''] ''hi'') True)] \<rparr>)"
    by code_simp
  have run2: "gen_steps demo_env demo_llm 2 (chat_with_memories ''hi'' None False False) demo_world
     = ([Yield (Some ''Noted.''), Stop], Finished,
        \<lparr> store = [],
          calls = [SearchCall ''hi'' ''demo_user'' 3,
                   CreateCall (client demo_llm)
                     (chat_request demo_llm
                        (prompt_messages demo_llm [''- likes coffee (Relevance: 0.00)''] ''hi'') False)] \<rparr>)"
    by code_simp
  from no_write_without_store_memory [OF run1] no_write_without_store_memory [OF run2] run1 run2
  show ?thesis by blast
qed

text \<open>The same for a \<open>for\<close> loop over the generator, which is one such caller.\<close>

lemma for_loop_no_write:
  "store (snd (snd (drain E L (chat_with_memories msg uid False st) w))) = store w
   \<and> (\<exists>new. calls (snd (snd (drain E L (chat_with_memories msg uid False st) w))) = calls w @ new
            \<and> (\<forall>c\<in>set new. \<not> is_write c))"
proof -
  from drain_is_gen_steps [of E L "chat_with_memories msg uid False st" w]
  obtain n rs g' where
    "gen_steps E L n (Created msg uid False st) w
       = (rs, g', snd (snd (drain E L (chat_with_memories msg uid False st) w)))"
    by (auto simp: chat_with_memories_def)
  from gen_steps_no_store [OF _ this] show ?thesis by simp
qed

text \<open>A generator suspended in the streaming loop with \<open>store_memory\<close> set: whatever the
  caller does next, either nothing is written, or the rest of the stream is read to its
  end, the caller is handed each of its fragments, and the one write carries the fragments
  collected before and after.\<close>

lemma streaming_store_after_exhaustion:
  assumes "gen_steps E L n (Streaming msgs uid True coll items) w = (rs, g', w')"
  shows "calls w' = calls w
       \<or> (\<exists>fs r. stream_fragments items = Some fs
               \<and> rs = map (\<lambda>f. Yield (Some f)) fs @ [r] \<and> (r = Stop \<or> (\<exists>e. r = Raise e))
               \<and> calls w' = calls w @ [AddCall (msgs @ [assistant (Some (concat (coll @ fs)))]) uid])"
  using assms
proof (induction n arbitrary: coll items rs g' w')
  case 0
  then show ?case by simp
next
  case (Suc n)
  obtain r g1 w1 where sl: "stream_loop E msgs uid True coll items w = (r, g1, w1)"
    by (cases "stream_loop E msgs uid True coll items w") auto
  from stream_loop_cases [OF sl]
  consider
    (yield) s rest where "r = Yield (Some s)" "g1 = Streaming msgs uid True (coll @ [s]) rest" "w1 = w"
      "stream_fragments items = map_option ((#) s) (stream_fragments rest)"
  | (broken) e where "r = Raise e" "w1 = w"
  | (stored) ro where "stream_fragments items = Some []"
      "store_turn E msgs (Some (concat coll)) uid w = (ro, w1)"
      "r = (case ro of None \<Rightarrow> Stop | Some e \<Rightarrow> Raise e)"
    by blast
  then show ?case
  proof cases
    case yield
    obtain rs1 g2 w2 where st: "gen_steps E L n (Streaming msgs uid True (coll @ [s]) rest) w = (rs1, g2, w2)"
      by (cases "gen_steps E L n (Streaming msgs uid True (coll @ [s]) rest) w") auto
    from Suc.prems sl yield st have eq: "rs = Yield (Some s) # rs1" "w' = w2" by auto
    from Suc.IH [OF st] show ?thesis
    proof
      assume "calls w2 = calls w"
      with eq show ?thesis by simp
    next
      assume "\<exists>fs r. stream_fragments rest = Some fs
               \<and> rs1 = map (\<lambda>f. Yield (Some f)) fs @ [r] \<and> (r = Stop \<or> (\<exists>e. r = Raise e))
               \<and> calls w2 = calls w @ [AddCall (msgs @ [assistant (Some (concat ((coll @ [s]) @ fs)))]) uid]"
      then obtain fs r' where fs: "stream_fragments rest = Some fs"
        "rs1 = map (\<lambda>f. Yield (Some f)) fs @ [r']" "r' = Stop \<or> (\<exists>e. r' = Raise e)"
        "calls w2 = calls w @ [AddCall (msgs @ [assistant (Some (concat ((coll @ [s]) @ fs)))]) uid]"
        by blast
      from fs(1) yield(4) have "stream_fragments items = Some (s # fs)" by simp
      moreover from fs(2) eq(1) have "rs = map (\<lambda>f. Yield (Some f)) (s # fs) @ [r']" by simp
      moreover from fs(4) eq(2)
      have "calls w' = calls w @ [AddCall (msgs @ [assistant (Some (concat (coll @ s # fs)))]) uid]"
        by simp
      ultimately show ?thesis using fs(3) by blast
    qed
  next
    case broken
    with Suc.prems sl have "w' = w" by auto
    then show ?thesis by simp
  next
    case stored
    from Suc.prems sl stored(3) have eq: "rs = [r]" "w' = w1"
      by (auto split: option.splits)
    from stored(3) have "r = Stop \<or> (\<exists>e. r = Raise e)" by (auto split: option.splits)
    moreover from eq(1) have "rs = map (\<lambda>f. Yield (Some f)) [] @ [r]" by simp
    moreover from store_turn_calls [OF stored(2)] eq(2)
    have "calls w' = calls w @ [AddCall (msgs @ [assistant (Some (concat (coll @ [])))]) uid]"
      by simp
    ultimately show ?thesis using stored(1) by blast
  qed
qed

lemma chat_start_streams:
  assumes "memory_manager L = Some mm"
    and "mem_search E (store w) msg (str_or u (user_id L)) (context_limit (mm_config mm)) = Inr results"
    and "traverse (memory_line E) results = Inr ls"
    and "create_stream E (client L) (chat_request L (prompt_messages L ls msg) True) = Inr items"
  shows "chat_start E L msg u sm True w
           = stream_loop E (prompt_messages L ls msg) (str_or u (user_id L)) sm [] items
               (issue (CreateCall (client L) (chat_request L (prompt_messages L ls msg) True))
                  (issue (SearchCall msg (str_or u (user_id L)) (context_limit (mm_config mm))) w))"
  using assms by (simp add: chat_start_def Let_def)

lemma chat_start_fails_early:
  assumes "chat_start E L msg u sm True w = (r, g', w')"
    and "\<not> (\<exists>mm results ls items. memory_manager L = Some mm
            \<and> mem_search E (store w) msg (str_or u (user_id L)) (context_limit (mm_config mm)) = Inr results
            \<and> traverse (memory_line E) results = Inr ls
            \<and> create_stream E (client L) (chat_request L (prompt_messages L ls msg) True) = Inr items)"
  shows "(\<exists>e. r = Raise e) \<and> (\<exists>new. calls w' = calls w @ new \<and> (\<forall>c\<in>set new. \<not> is_write c))"
  using assms
  by (auto simp: chat_start_def Let_def issue_def split: option.splits sum.splits)

lemma gen_steps_Created_Streaming:
  assumes "chat_start E L msg u sm st w = stream_loop E msgs uid sm [] items w2"
  shows "gen_steps E L (Suc n) (Created msg u sm st) w
           = gen_steps E L (Suc n) (Streaming msgs uid sm [] items) w2"
  using assms by simp

lemma stream_turn_calls:
  assumes "gen_steps E L n (chat_with_memories msg u True True) w = (rs, g', w')"
  shows "\<exists>new. calls w' = calls w @ new
           \<and> ((\<forall>c\<in>set new. \<not> is_write c)
              \<or> (\<exists>mm results ls items fs r.
                    memory_manager L = Some mm
                  \<and> mem_search E (store w) msg (str_or u (user_id L)) (context_limit (mm_config mm))
                      = Inr results
                  \<and> traverse (memory_line E) results = Inr ls
                  \<and> create_stream E (client L) (chat_request L (prompt_messages L ls msg) True)
                      = Inr items
                  \<and> stream_fragments items = Some fs
                  \<and> rs = map (\<lambda>f. Yield (Some f)) fs @ [r] \<and> (r = Stop \<or> (\<exists>e. r = Raise e))
                  \<and> new = [SearchCall msg (str_or u (user_id L)) (context_limit (mm_config mm)),
                            CreateCall (client L) (chat_request L (prompt_messages L ls msg) True),
                            AddCall (prompt_messages L ls msg @ [assistant (Some (concat fs))])
                              (str_or u (user_id L))]))"
proof (cases n)
  case 0
  with assms have "calls w' = calls w @ []" by simp
  then show ?thesis by (intro exI [of _ "[]"]) simp
next
  case (Suc k)
  show ?thesis
  proof (cases "\<exists>mm results ls items. memory_manager L = Some mm
            \<and> mem_search E (store w) msg (str_or u (user_id L)) (context_limit (mm_config mm)) = Inr results
            \<and> traverse (memory_line E) results = Inr ls
            \<and> create_stream E (client L) (chat_request L (prompt_messages L ls msg) True) = Inr items")
    case True
    then obtain mm results ls items where h:
      "memory_manager L = Some mm"
      "mem_search E (store w) msg (str_or u (user_id L)) (context_limit (mm_config mm)) = Inr results"
      "traverse (memory_line E) results = Inr ls"
      "create_stream E (client L) (chat_request L (prompt_messages L ls msg) True) = Inr items"
      by blast
    let ?uid = "str_or u (user_id L)"
    let ?msgs = "prompt_messages L ls msg"
    let ?S = "SearchCall msg ?uid (context_limit (mm_config mm))"
    let ?C = "CreateCall (client L) (chat_request L ?msgs True)"
    let ?w2 = "issue ?C (issue ?S w)"
    have c2: "calls ?w2 = calls w @ [?S, ?C]" by (simp add: issue_def)
    from gen_steps_Created_Streaming [OF chat_start_streams [OF h], of k] assms Suc
    have run: "gen_steps E L (Suc k) (Streaming ?msgs ?uid True [] items) ?w2 = (rs, g', w')"
      by (simp add: chat_with_memories_def)
    from streaming_store_after_exhaustion [OF run] show ?thesis
    proof
      assume "calls w' = calls ?w2"
      with c2 have "calls w' = calls w @ [?S, ?C]" by simp
      then show ?thesis by (intro exI [of _ "[?S, ?C]"]) simp
    next
      assume "\<exists>fs r. stream_fragments items = Some fs
                \<and> rs = map (\<lambda>f. Yield (Some f)) fs @ [r] \<and> (r = Stop \<or> (\<exists>e. r = Raise e))
                \<and> calls w' = calls ?w2 @ [AddCall (?msgs @ [assistant (Some (concat ([] @ fs)))]) ?uid]"
      then obtain fs r where fs: "stream_fragments items = Some fs"
        "rs = map (\<lambda>f. Yield (Some f)) fs @ [r]" "r = Stop \<or> (\<exists>e. r = Raise e)"
        "calls w' = calls ?w2 @ [AddCall (?msgs @ [assistant (Some (concat ([] @ fs)))]) ?uid]"
        by blast
      from fs(4) c2
      have "calls w' = calls w @ [?S, ?C, AddCall (?msgs @ [assistant (Some (concat fs))]) ?uid]"
        by simp
      with h fs(1,2,3) show ?thesis
        by (intro exI [of _ "[?S, ?C, AddCall (?msgs @ [assistant (Some (concat fs))]) ?uid]"]) blast
    qed
  next
    case False
    obtain r g1 w1 where cs: "chat_start E L msg u True True w = (r, g1, w1)"
      by (cases "chat_start E L msg u True True w") auto
    from chat_start_fails_early [OF cs False] obtain e new where
      r: "r = Raise e" and new: "calls w1 = calls w @ new" "\<forall>c\<in>set new. \<not> is_write c" by blast
    from assms Suc cs r have "w' = w1" by (simp add: chat_with_memories_def)
    with new show ?thesis by blast
  qed
qed

text \<open>
  C1.  With \<open>stream=True\<close> and \<open>store_memory=True\<close>, however many values the caller asks
  for: either the turn issues no write call at all (no \<open>add\<close>, no \<open>clear\<close>), or the
  stream the completion client returned was read to its end, the caller was handed exactly
  its fragments, in order, before the generator stopped (or raised what \<open>add\<close> raised),
  and the calls of the turn are the search, the completion request and then one \<open>add\<close>
  of the system message, the user message and a message with the role \<open>assistant\<close> whose
  content is the concatenation of those fragments.  A caller that stops early, or a stream
  that breaks, leaves nothing persisted.
\<close>

theorem stream_persisted_after_exhaustion:
  assumes "gen_steps E L n (chat_with_memories msg u True True) w = (rs, g', w')"
  shows "\<exists>new. calls w' = calls w @ new
           \<and> ((\<forall>m a. AddCall m a \<notin> set new) \<and> (\<forall>a. ClearCall a \<notin> set new)
              \<or> (\<exists>mm results ls items fs r uid prompt.
                    memory_manager L = Some mm
                  \<and> uid = (case u of None \<Rightarrow> user_id L
                            | Some a \<Rightarrow> if a = [] then user_id L else a)
                  \<and> mem_search E (store w) msg uid (context_limit (mm_config mm)) = Inr results
                  \<and> traverse (memory_line E) results = Inr ls
                  \<and> prompt = [\<lparr> role = ''system'', content = Some (build_system_prompt L ls) \<rparr>,
                              \<lparr> role = ''user'', content = Some msg \<rparr>]
                  \<and> create_stream E (client L)
                       \<lparr> req_model = model (config L), req_messages = prompt, req_stream = True,
                         req_temperature = temperature (config L),
                         req_max_tokens = max_tokens (config L) \<rparr>
                      = Inr items
                  \<and> stream_fragments items = Some fs
                  \<and> rs = map (\<lambda>f. Yield (Some f)) fs @ [r] \<and> (r = Stop \<or> (\<exists>e. r = Raise e))
                  \<and> new = [SearchCall msg uid (context_limit (mm_config mm)),
                            CreateCall (client L)
                              \<lparr> req_model = model (config L), req_messages = prompt,
                                req_stream = True, req_temperature = temperature (config L),
                                req_max_tokens = max_tokens (config L) \<rparr>,
                            AddCall (prompt @ [\<lparr> role = ''assistant'', content = Some (concat fs) \<rparr>])
                              uid]))"
proof -
  have uid: "str_or u (user_id L)
               = (case u of None \<Rightarrow> user_id L | Some a \<Rightarrow> if a = [] then user_id L else a)"
    by (simp add: str_or_def split: option.splits)
  from stream_turn_calls [OF assms] obtain new where
    new: "calls w' = calls w @ new" and
    alt: "(\<forall>c\<in>set new. \<not> is_write c)
        \<or> (\<exists>mm results ls items fs r.
               memory_manager L = Some mm
             \<and> mem_search E (store w) msg (str_or u (user_id L)) (context_limit (mm_config mm))
                 = Inr results
             \<and> traverse (memory_line E) results = Inr ls
             \<and> create_stream E (client L) (chat_request L (prompt_messages L ls msg) True)
                 = Inr items
             \<and> stream_fragments items = Some fs
             \<and> rs = map (\<lambda>f. Yield (Some f)) fs @ [r] \<and> (r = Stop \<or> (\<exists>e. r = Raise e))
             \<and> new = [SearchCall msg (str_or u (user_id L)) (context_limit (mm_config mm)),
                       CreateCall (client L) (chat_request L (prompt_messages L ls msg) True),
                       AddCall (prompt_messages L ls msg @ [assistant (Some (concat fs))])
                         (str_or u (user_id L))])"
    by blast
  from alt show ?thesis
  proof
    assume "\<forall>c\<in>set new. \<not> is_write c"
    then have "(\<forall>m a. AddCall m a \<notin> set new) \<and> (\<forall>a. ClearCall a \<notin> set new)" by force
    with new show ?thesis by blast
  next
    assume "\<exists>mm results ls items fs r.
               memory_manager L = Some mm
             \<and> mem_search E (store w) msg (str_or u (user_id L)) (context_limit (mm_config mm))
                 = Inr results
             \<and> traverse (memory_line E) results = Inr ls
             \<and> create_stream E (client L) (chat_request L (prompt_messages L ls msg) True)
                 = Inr items
             \<and> stream_fragments items = Some fs
             \<and> rs = map (\<lambda>f. Yield (Some f)) fs @ [r] \<and> (r = Stop \<or> (\<exists>e. r = Raise e))
             \<and> new = [SearchCall msg (str_or u (user_id L)) (context_limit (mm_config mm)),
                       CreateCall (client L) (chat_request L (prompt_messages L ls msg) True),
                       AddCall (prompt_messages L ls msg @ [assistant (Some (concat fs))])
                         (str_or u (user_id L))]"
    then obtain mm results ls items fs r where h:
      "memory_manager L = Some mm"
      "mem_search E (store w) msg (str_or u (user_id L)) (context_limit (mm_config mm)) = Inr results"
      "traverse (memory_line E) results = Inr ls"
      "create_stream E (client L) (chat_request L (prompt_messages L ls msg) True) = Inr items"
      "stream_fragments items = Some fs"
      "rs = map (\<lambda>f. Yield (Some f)) fs @ [r]" "r = Stop \<or> (\<exists>e. r = Raise e)"
      "new = [SearchCall msg (str_or u (user_id L)) (context_limit (mm_config mm)),
              CreateCall (client L) (chat_request L (prompt_messages L ls msg) True),
              AddCall (prompt_messages L ls msg @ [assistant (Some (concat fs))])
                (str_or u (user_id L))]"
      by blast
    let ?uid = "case u of None \<Rightarrow> user_id L | Some a \<Rightarrow> if a = [] then user_id L else a"
    let ?prompt = "[\<lparr> role = ''system'', content = Some (build_system_prompt L ls) \<rparr>,
                   \<lparr> role = ''user'', content = Some msg \<rparr>]"
    let ?req = "\<lparr> req_model = model (config L), req_messages = ?prompt, req_stream = True,
                 req_temperature = temperature (config L),
                 req_max_tokens = max_tokens (config L) \<rparr>"
    from h(2) uid have s: "mem_search E (store w) msg ?uid (context_limit (mm_config mm)) = Inr results"
      by simp
    from h(4) have c: "create_stream E (client L) ?req = Inr items"
      by (simp add: chat_request_def prompt_messages_def)
    from h(8) uid
    have n: "new = [SearchCall msg ?uid (context_limit (mm_config mm)),
                    CreateCall (client L) ?req,
                    AddCall (?prompt @ [\<lparr> role = ''assistant'', content = Some (concat fs) \<rparr>]) ?uid]"
      by (simp add: chat_request_def prompt_messages_def assistant_def)
    from h(1) s h(3) c h(5) h(6) h(7) n
    have "\<exists>mm results ls items fs r uid prompt.
                    memory_manager L = Some mm
                  \<and> uid = (case u of None \<Rightarrow> user_id L
                            | Some a \<Rightarrow> if a = [] then user_id L else a)
                  \<and> mem_search E (store w) msg uid (context_limit (mm_config mm)) = Inr results
                  \<and> traverse (memory_line E) results = Inr ls
                  \<and> prompt = [\<lparr> role = ''system'', content = Some (build_system_prompt L ls) \<rparr>,
                              \<lparr> role = ''user'', content = Some msg \<rparr>]
                  \<and> create_stream E (client L)
                       \<lparr> req_model = model (config L), req_messages = prompt, req_stream = True,
                         req_temperature = temperature (config L),
                         req_max_tokens = max_tokens (config L) \<rparr>
                      = Inr items
                  \<and> stream_fragments items = Some fs
                  \<and> rs = map (\<lambda>f. Yield (Some f)) fs @ [r] \<and> (r = Stop \<or> (\<exists>e. r = Raise e))
                  \<and> new = [SearchCall msg uid (context_limit (mm_config mm)),
                            CreateCall (client L)
                              \<lparr> req_model = model (config L), req_messages = prompt,
                                req_stream = True, req_temperature = temperature (config L),
                                req_max_tokens = max_tokens (config L) \<rparr>,
                            AddCall (prompt @ [\<lparr> role = ''assistant'', content = Some (concat fs) \<rparr>])
                              uid]"
      by (intro exI [of _ mm] exI [of _ results] exI [of _ ls] exI [of _ items] exI [of _ fs]
            exI [of _ r] exI [of _ ?uid] exI [of _ ?prompt]) (intro conjI refl, assumption+)
    with new show ?thesis by blast
  qed
qed

theorem stream_persisted_after_exhaustion_witness:
  "gen_steps demo_env demo_llm 1 (chat_with_memories ''hi'' None True True) demo_world
     = ([Yield (Some ''Hel'')],
        Streaming
          [\<lparr> role = ''system'',
             content = Some (''Be brief.'' @ [CHR 0x0A, CHR 0x0A] @ ''Relevant Memories:''
                             @ [CHR 0x0A] @ ''- likes coffee (Relevance: 0.00)'') \<rparr>,
           \<lparr> role = ''user'', content = Some ''hi'' \<rparr>]
          ''demo_user'' True [''Hel''] [Chunk [None], Chunk [Some ''lo'']],
        \<lparr> store = [],
          calls = [SearchCall ''hi'' ''demo_user'' 3,
                   CreateCall \<lparr> client_api_key = ''k'', base_url = ''b'' \<rparr>
                     \<lparr> req_model = ''m1'',
                       req_messages =
                         [\<lparr> role = ''system'',
                            content = Some (''Be brief.'' @ [CHR 0x0A, CHR 0x0A]
                                            @ ''Relevant Memories:'' @ [CHR 0x0A]
                                            @ ''- likes coffee (Relevance: 0.00)'') \<rparr>,
                          \<lparr> role = ''user'', content = Some ''hi'' \<rparr>],
                       req_stream = True, req_temperature = 1 / 2, req_max_tokens = 2000 \<rparr>] \<rparr>)
   \<and> gen_steps demo_env demo_llm 3 (chat_with_memories ''hi'' None True True) demo_world
     = ([Yield (Some ''Hel''), Yield (Some ''lo''), Stop], Finished,
        \<lparr> store = [(''demo_user'',
                    [\<lparr> role = ''system'',
                       content = Some (''Be brief.'' @ [CHR 0x0A, CHR 0x0A]
                                       @ ''Relevant Memories:'' @ [CHR 0x0A]
                                       @ ''- likes coffee (Relevance: 0.00)'') \<rparr>,
                     \<lparr> role = ''user'', content = Some ''hi'' \<rparr>,
                     \<lparr> role = ''assistant'', content = Some ''Hello'' \<rparr>])],
          calls = [SearchCall ''hi'' ''demo_user'' 3,
                   CreateCall \<lparr> client_api_key = ''k'', base_url = ''b'' \<rparr>
                     \<lparr> req_model = ''m1'',
                       req_messages =
                         [\<lparr> role = ''system'',
                            content = Some (''Be brief.'' @ [CHR 0x0A, CHR 0x0A]
                                            @ ''Relevant Memories:'' @ [CHR 0x0A]
                                            @ ''- likes coffee (Relevance: 0.00)'') \<rparr>,
                          \<lparr> role = ''user'', content = Some ''hi'' \<rparr>],
                       req_stream = True, req_temperature = 1 / 2, req_max_tokens = 2000 \<rparr>,
                   AddCall
                     [\<lparr> role = ''system'',
                        content = Some (''Be brief.'' @ [CHR 0x0A, CHR 0x0A]
                                        @ ''Relevant Memories:'' @ [CHR 0x0A]
                                        @ ''- likes coffee (Relevance: 0.00)'') \<rparr>,
                      \<lparr> role = ''user'', content = Some ''hi'' \<rparr>,
                      \<lparr> role = ''assistant'', content = Some ''Hello'' \<rparr>]
                     ''demo_user''] \<rparr>)
   \<and> (\<exists>fs. [Yield (Some ''Hel''), Yield (Some ''lo''), Stop]
               = map (\<lambda>f. Yield (Some f)) fs @ [Stop :: string option step]
            \<and> ''Hello'' = concat fs)"
proof -
  have run1: "gen_steps demo_env demo_llm 1 (chat_with_memories ''hi'' None True True) demo_world
     = ([Yield (Some ''Hel'')],
        Streaming
          [\<lparr> role = ''system'',
             content = Some (''Be brief.'' @ [CHR 0x0A, CHR 0x0A] @ ''Relevant Memories:''
                             @ [CHR 0x0A] @ ''- likes coffee (Relevance: 0.00)'') \<rparr>,
           \<lparr> role = ''user'', content = Some ''hi'' \<rparr>]
          ''demo_user'' True [''Hel''] [Chunk [None], Chunk [Some ''lo'']],
        \<lparr> store = [],
          calls = [SearchCall ''hi'' ''demo_user'' 3,
                   CreateCall \<lparr> client_api_key = ''k'', base_url = ''b'' \<rparr>
                     \<lparr> req_model = ''m1'',
                       req_messages =
                         [\<lparr> role = ''system'',
                            content = Some (''Be brief.'' @ [CHR 0x0A, CHR 0x0A]
                                            @ ''Relevant Memories:'' @ [CHR 0x0A]
                                            @ ''- likes coffee (Relevance: 0.00)'') \<rparr>,
                          \<lparr> role = ''user'', content = Some ''hi'' \<rparr>],
                       req_stream = True, req_temperature = 1 / 2, req_max_tokens = 2000 \<rparr>] \<rparr>)"
    by code_simp
  have run3: "gen_steps demo_env demo_llm 3 (chat_with_memories ''hi'' None True True) demo_world
     = ([Yield (Some ''Hel''), Yield (Some ''lo''), Stop], Finished,
        \<lparr> store = [(''demo_user'',
                    [\<lparr> role = ''system'',
                       content = Some (''Be brief.'' @ [CHR 0x0A, CHR 0x0A]
                                       @ ''Relevant Memories:'' @ [CHR 0x0A]
                                       @ ''- likes coffee (Relevance: 0.00)'') \<rparr>,
                     \<lparr> role = ''user'', content = Some ''hi'' \<rparr>,
                     \<lparr> role = ''assistant'', content = Some ''Hello'' \<rparr>])],
          calls = [SearchCall ''hi'' ''demo_user'' 3,
                   CreateCall \<lparr> client_api_key = ''k'', base_url = ''b'' \<rparr>
                     \<lparr> req_model = ''m1'',
                       req_messages =
                         [\<lparr> role = ''system'',
                            content = Some (''Be brief.'' @ [CHR 0x0A, CHR 0x0A]
                                            @ ''Relevant Memories:'' @ [CHR 0x0A]
                                            @ ''- likes coffee (Relevance: 0.00)'') \<rparr>,
                          \<lparr> role = ''user'', content = Some ''hi'' \<rparr>],
                       req_stream = True, req_temperature = 1 / 2, req_max_tokens = 2000 \<rparr>,
                   AddCall
                     [\<lparr> role = ''system'',
                        content = Some (''Be brief.'' @ [CHR 0x0A, CHR 0x0A]
                                        @ ''Relevant Memories:'' @ [CHR 0x0A]
                                        @ ''- likes coffee (Relevance: 0.00)'') \<rparr>,
                      \<lparr> role = ''user'', content = Some ''hi'' \<rparr>,
                      \<lparr> role = ''assistant'', content = Some ''Hello'' \<rparr>]
                     ''demo_user''] \<rparr>)"
    by code_simp
  from stream_persisted_after_exhaustion [OF run3]
  have b: "\<exists>fs. [Yield (Some ''Hel''), Yield (Some ''lo''), Stop]
               = map (\<lambda>f. Yield (Some f)) fs @ [Stop :: string option step]
            \<and> ''Hello'' = concat fs"
    by (auto simp: demo_world_def intro!: exI [of _ "[''Hel'', ''lo'']"])
  from run1 run3 b show ?thesis by blast
qed

text \<open>When the stream can be read to its end, a \<open>for\<close> loop over the generator does read
  it to its end, receives every fragment and ends with the write of the whole turn.\<close>

lemma drain_streaming:
  assumes "stream_fragments items = Some fs"
  shows "drain E L (Streaming msgs uid True coll items) w
           = (map Some fs, store_turn E msgs (Some (concat (coll @ fs))) uid w)"
  using assms
proof (induction "length items" arbitrary: items coll fs rule: less_induct)
  case less
  obtain r g1 w1 where sl: "stream_loop E msgs uid True coll items w = (r, g1, w1)"
    by (cases "stream_loop E msgs uid True coll items w") auto
  from stream_loop_cases [OF sl] less.prems
  consider
    (yield) s rest where "r = Yield (Some s)" "g1 = Streaming msgs uid True (coll @ [s]) rest" "w1 = w"
      "stream_fragments items = map_option ((#) s) (stream_fragments rest)"
  | (stored) ro where "stream_fragments items = Some []"
      "store_turn E msgs (Some (concat coll)) uid w = (ro, w1)"
      "r = (case ro of None \<Rightarrow> Stop | Some e \<Rightarrow> Raise e)"
    by auto
  then show ?case
  proof cases
    case yield
    from yield(4) less.prems obtain fs' where fs': "stream_fragments rest = Some fs'" "fs = s # fs'"
      by (cases "stream_fragments rest") auto
    from stream_loop_shrinks [OF sl [unfolded yield(1)]] yield(2)
    have "length rest < length items" by simp
    from less.hyps [OF this fs'(1), of "coll @ [s]"]
    have "drain E L (Streaming msgs uid True (coll @ [s]) rest) w
            = (map Some fs', store_turn E msgs (Some (concat ((coll @ [s]) @ fs'))) uid w)" .
    with sl yield fs'(2) show ?thesis
      by (cases "store_turn E msgs (Some (concat (coll @ s # fs'))) uid w")
         (simp add: drain.simps [of E L "Streaming msgs uid True coll items" w])
  next
    case stored
    with less.prems have "fs = []" by simp
    with sl stored show ?thesis
      by (simp add: drain.simps [of E L "Streaming msgs uid True coll items" w] split: option.splits)
  qed
qed

lemma stream_turn_is_stored:
  assumes "memory_manager L = Some mm"
    and "mem_search E (store w) msg (str_or u (user_id L)) (context_limit (mm_config mm)) = Inr results"
    and "traverse (memory_line E) results = Inr ls"
    and "create_stream E (client L) (chat_request L (prompt_messages L ls msg) True) = Inr items"
    and "stream_fragments items = Some fs"
  shows "drain E L (chat_with_memories msg u True True) w
           = (map Some fs,
              store_turn E (prompt_messages L ls msg) (Some (concat fs)) (str_or u (user_id L))
                (issue (CreateCall (client L) (chat_request L (prompt_messages L ls msg) True))
                   (issue (SearchCall msg (str_or u (user_id L)) (context_limit (mm_config mm))) w)))"
proof -
  let ?w2 = "issue (CreateCall (client L) (chat_request L (prompt_messages L ls msg) True))
               (issue (SearchCall msg (str_or u (user_id L)) (context_limit (mm_config mm))) w)"
  let ?g = "Streaming (prompt_messages L ls msg) (str_or u (user_id L)) True [] items"
  from chat_start_streams [OF assms(1-4), of True]
  have "gen_next E L (Created msg u True True) w = gen_next E L ?g ?w2" by simp
  then have "drain E L (Created msg u True True) w = drain E L ?g ?w2"
    by (simp only: drain.simps [of E L "Created msg u True True" w] drain.simps [of E L ?g ?w2])
  with drain_streaming [OF assms(5), of E L "prompt_messages L ls msg" "str_or u (user_id L)" "[]" ?w2]
  show ?thesis by (simp add: chat_with_memories_def)
qed

text \<open>How a result of the store is reshaped and rendered.\<close>

lemma traverse_list_all2:
  "traverse f xs = Inr ys \<Longrightarrow> list_all2 (\<lambda>x y. f x = Inr y) xs ys"
  by (induction xs arbitrary: ys) (auto split: sum.splits)

lemma format_2f_zero: "format_2f_rat 0 = ''0.00''"
  by code_simp

lemma memory_line_without_score:
  assumes "map_of entry ''memory'' = Some c" and "map_of entry ''score'' = None"
  shows "memory_line E entry = Inr (''- '' @ py_str E c @ '' (Relevance: 0.00)'')"
  using assms by (simp add: memory_line_def dict_get_def format_2f_zero)

lemma memory_line_content:
  "memory_line E m = Inr l \<Longrightarrow> \<exists>c. map_of m ''memory'' = Some c"
  by (auto simp: memory_line_def split: option.splits)

lemma search_record_score:
  "search_record m = Inr r \<Longrightarrow>
     map_of r ''relevance_score'' = Some (case map_of m ''score'' of None \<Rightarrow> PFloat 0 | Some v \<Rightarrow> v)"
  by (auto simp: search_record_def dict_get_def split: option.splits)

lemma stream_loop_calls:
  assumes "stream_loop E msgs uid sm coll items w = (r, g', w')"
  shows "\<exists>new. calls w' = calls w @ new"
  using stream_loop_cases [OF assms] by (auto dest: store_turn_calls)

lemma chat_start_sends_prompt:
  assumes "memory_manager L = Some mm"
    and "mem_search E (store w) msg (str_or u (user_id L)) (context_limit (mm_config mm)) = Inr results"
    and "traverse (memory_line E) results = Inr ls"
    and "chat_start E L msg u sm st w = (r, g', w')"
  shows "CreateCall (client L) (chat_request L (prompt_messages L ls msg) st) \<in> set (calls w')"
proof (cases st)
  case True
  with assms show ?thesis
    by (auto simp: chat_start_def Let_def issue_def dest!: stream_loop_calls
          split: sum.splits)
next
  case False
  with assms show ?thesis
    by (auto simp: chat_start_def Let_def issue_def dest!: store_turn_calls
          split: sum.splits list.splits if_splits prod.splits option.splits)
qed

lemma join_explicit:
  "join sep ls = (case ls of [] \<Rightarrow> [] | l # rest \<Rightarrow> l @ concat (map (\<lambda>x. sep @ x) rest))"
  by (induction sep ls rule: join.induct) simp_all

lemma build_system_prompt_explicit:
  "build_system_prompt L ls
     = system_prompt (config L) @ [CHR 0x0A, CHR 0x0A] @ ''Relevant Memories:'' @ [CHR 0x0A]
       @ (case ls of [] \<Rightarrow> [] | l # rest \<Rightarrow> l @ concat (map (\<lambda>x. CHR 0x0A # x) rest))"
proof -
  have "(\<lambda>x. [CHR 0x0A] @ x) = (\<lambda>x. CHR 0x0A # x)" by simp
  then show ?thesis
    by (simp add: build_system_prompt_def nl_def join_explicit [of "[CHR 0x0A]"]
          del: append.simps split: list.splits)
qed

lemma memory_line_without_score_explicit:
  assumes "memory_line E m = Inr l" and "map_of m ''score'' = None"
  shows "\<exists>c. map_of m ''memory'' = Some c
           \<and> l = ''- '' @ (case c of PStr s \<Rightarrow> s | _ \<Rightarrow> py_repr E c) @ '' (Relevance: 0.00)''"
proof -
  from memory_line_content [OF assms(1)] obtain c where c: "map_of m ''memory'' = Some c" by blast
  from memory_line_without_score [OF c assms(2), of E] assms(1)
  have "l = ''- '' @ py_str E c @ '' (Relevance: 0.00)''" by simp
  with c show ?thesis by (auto simp: py_str_def)
qed

text \<open>
  C9.  A result of the store without a \<open>score\<close> gets the score 0.0.  Every record
  \<open>search_memories\<close> returns has the key \<open>relevance_score\<close>, bound to the store's score
  or, when the store gave none, to 0.0.  When \<open>chat_with_memories\<close> has rendered the
  results of its search, the request it issues to the completion client carries a system
  message whose content is the configured prompt, an empty line, the line
  \<open>Relevant Memories:\<close> and then one line per result, and the line of a result without
  a score is \<open>- \<close>, its content and \<open> (Relevance: 0.00)\<close>.
\<close>

theorem missing_score_is_zero:
  "(mm_search_memories E mm uid q n w = (Inr recs, w') \<longrightarrow>
      (\<exists>results. mem_search E (store w) q uid (min n (search_limit (mm_config mm))) = Inr results
         \<and> list_all2 (\<lambda>m r. map_of r ''relevance_score''
                               = Some (case map_of m ''score'' of None \<Rightarrow> PFloat 0 | Some v \<Rightarrow> v))
              results recs))
   \<and> (memory_manager L = Some mm'
        \<and> mem_search E (store w0) msg
             (case u of None \<Rightarrow> user_id L | Some a \<Rightarrow> if a = [] then user_id L else a)
             (context_limit (mm_config mm'))
            = Inr results'
        \<and> traverse (memory_line E) results' = Inr ls
        \<and> gen_next E L (chat_with_memories msg u sm st) w0 = (r, g, w1) \<longrightarrow>
      CreateCall (client L)
        \<lparr> req_model = model (config L),
          req_messages =
            [\<lparr> role = ''system'',
               content = Some (system_prompt (config L) @ [CHR 0x0A, CHR 0x0A]
                               @ ''Relevant Memories:'' @ [CHR 0x0A]
                               @ (case ls of [] \<Rightarrow> []
                                  | l # rest \<Rightarrow> l @ concat (map (\<lambda>x. CHR 0x0A # x) rest))) \<rparr>,
             \<lparr> role = ''user'', content = Some msg \<rparr>],
          req_stream = st, req_temperature = temperature (config L),
          req_max_tokens = max_tokens (config L) \<rparr>
        \<in> set (calls w1)
      \<and> list_all2 (\<lambda>m l. map_of m ''score'' = None \<longrightarrow>
                      (\<exists>c. map_of m ''memory'' = Some c
                          \<and> l = ''- '' @ (case c of PStr s \<Rightarrow> s | _ \<Rightarrow> py_repr E c)
                                @ '' (Relevance: 0.00)''))
           results' ls)"
proof -
  have first: "mm_search_memories E mm uid q n w = (Inr recs, w') \<longrightarrow>
      (\<exists>results. mem_search E (store w) q uid (min n (search_limit (mm_config mm))) = Inr results
         \<and> list_all2 (\<lambda>m r. map_of r ''relevance_score''
                               = Some (case map_of m ''score'' of None \<Rightarrow> PFloat 0 | Some v \<Rightarrow> v))
              results recs)"
  proof
    assume a: "mm_search_memories E mm uid q n w = (Inr recs, w')"
    then obtain results where
      s: "mem_search E (store w) q uid (min n (search_limit (mm_config mm))) = Inr results"
      and t: "traverse search_record results = Inr recs"
      by (auto simp: mm_search_memories_def Let_def split: sum.splits)
    from traverse_list_all2 [OF t]
    have "list_all2 (\<lambda>m r. map_of r ''relevance_score''
                               = Some (case map_of m ''score'' of None \<Rightarrow> PFloat 0 | Some v \<Rightarrow> v))
              results recs"
      by (rule list_all2_mono) (rule search_record_score)
    with s show "\<exists>results. mem_search E (store w) q uid (min n (search_limit (mm_config mm))) = Inr results
         \<and> list_all2 (\<lambda>m r. map_of r ''relevance_score''
                               = Some (case map_of m ''score'' of None \<Rightarrow> PFloat 0 | Some v \<Rightarrow> v))
              results recs" by blast
  qed
  have second: "memory_manager L = Some mm'
        \<and> mem_search E (store w0) msg
             (case u of None \<Rightarrow> user_id L | Some a \<Rightarrow> if a = [] then user_id L else a)
             (context_limit (mm_config mm'))
            = Inr results'
        \<and> traverse (memory_line E) results' = Inr ls
        \<and> gen_next E L (chat_with_memories msg u sm st) w0 = (r, g, w1) \<longrightarrow>
      CreateCall (client L)
        \<lparr> req_model = model (config L),
          req_messages =
            [\<lparr> role = ''system'',
               content = Some (system_prompt (config L) @ [CHR 0x0A, CHR 0x0A]
                               @ ''Relevant Memories:'' @ [CHR 0x0A]
                               @ (case ls of [] \<Rightarrow> []
                                  | l # rest \<Rightarrow> l @ concat (map (\<lambda>x. CHR 0x0A # x) rest))) \<rparr>,
             \<lparr> role = ''user'', content = Some msg \<rparr>],
          req_stream = st, req_temperature = temperature (config L),
          req_max_tokens = max_tokens (config L) \<rparr>
        \<in> set (calls w1)
      \<and> list_all2 (\<lambda>m l. map_of m ''score'' = None \<longrightarrow>
                      (\<exists>c. map_of m ''memory'' = Some c
                          \<and> l = ''- '' @ (case c of PStr s \<Rightarrow> s | _ \<Rightarrow> py_repr E c)
                                @ '' (Relevance: 0.00)''))
           results' ls"
  proof
    assume b: "memory_manager L = Some mm'
        \<and> mem_search E (store w0) msg
             (case u of None \<Rightarrow> user_id L | Some a \<Rightarrow> if a = [] then user_id L else a)
             (context_limit (mm_config mm'))
            = Inr results'
        \<and> traverse (memory_line E) results' = Inr ls
        \<and> gen_next E L (chat_with_memories msg u sm st) w0 = (r, g, w1)"
    have uid: "str_or u (user_id L)
               = (case u of None \<Rightarrow> user_id L | Some a \<Rightarrow> if a = [] then user_id L else a)"
      by (simp add: str_or_def split: option.splits)
    from b have mm': "memory_manager L = Some mm'"
      and tr: "traverse (memory_line E) results' = Inr ls"
      and cs: "chat_start E L msg u sm st w0 = (r, g, w1)"
      by (simp_all add: chat_with_memories_def)
    from b uid
    have se: "mem_search E (store w0) msg (str_or u (user_id L)) (context_limit (mm_config mm'))
                = Inr results'" by simp
    from chat_start_sends_prompt [OF mm' se tr cs]
    have sent: "CreateCall (client L)
        \<lparr> req_model = model (config L),
          req_messages =
            [\<lparr> role = ''system'',
               content = Some (system_prompt (config L) @ [CHR 0x0A, CHR 0x0A]
                               @ ''Relevant Memories:'' @ [CHR 0x0A]
                               @ (case ls of [] \<Rightarrow> []
                                  | l # rest \<Rightarrow> l @ concat (map (\<lambda>x. CHR 0x0A # x) rest))) \<rparr>,
             \<lparr> role = ''user'', content = Some msg \<rparr>],
          req_stream = st, req_temperature = temperature (config L),
          req_max_tokens = max_tokens (config L) \<rparr>
        \<in> set (calls w1)"
      by (simp add: chat_request_def prompt_messages_def build_system_prompt_explicit)
    from traverse_list_all2 [OF tr]
    have "list_all2 (\<lambda>m l. map_of m ''score'' = None \<longrightarrow>
                      (\<exists>c. map_of m ''memory'' = Some c
                          \<and> l = ''- '' @ (case c of PStr s \<Rightarrow> s | _ \<Rightarrow> py_repr E c)
                                @ '' (Relevance: 0.00)''))
           results' ls"
      by (rule list_all2_mono) (blast dest: memory_line_without_score_explicit)
    with sent show "CreateCall (client L)
        \<lparr> req_model = model (config L),
          req_messages =
            [\<lparr> role = ''system'',
               content = Some (system_prompt (config L) @ [CHR 0x0A, CHR 0x0A]
                               @ ''Relevant Memories:'' @ [CHR 0x0A]
                               @ (case ls of [] \<Rightarrow> []
                                  | l # rest \<Rightarrow> l @ concat (map (\<lambda>x. CHR 0x0A # x) rest))) \<rparr>,
             \<lparr> role = ''user'', content = Some msg \<rparr>],
          req_stream = st, req_temperature = temperature (config L),
          req_max_tokens = max_tokens (config L) \<rparr>
        \<in> set (calls w1)
      \<and> list_all2 (\<lambda>m l. map_of m ''score'' = None \<longrightarrow>
                      (\<exists>c. map_of m ''memory'' = Some c
                          \<and> l = ''- '' @ (case c of PStr s \<Rightarrow> s | _ \<Rightarrow> py_repr E c)
                                @ '' (Relevance: 0.00)''))
           results' ls" by (rule conjI)
  qed
  from first second show ?thesis by (rule conjI)
qed

theorem missing_score_is_zero_witness:
  "mm_search_memories demo_env demo_manager ''u'' ''coffee'' 5 demo_world
     = (Inr [[(''content'', PStr ''likes coffee''), (''metadata'', PDict []),
              (''created_at'', PNone), (''relevance_score'', PFloat 0)]],
        \<lparr> store = [], calls = [SearchCall ''coffee'' ''u'' 5] \<rparr>)
   \<and> (\<exists>results. mem_search demo_env (store demo_world) ''coffee'' ''u''
                    (min 5 (search_limit (mm_config demo_manager))) = Inr results
         \<and> list_all2 (\<lambda>m r. map_of r ''relevance_score''
                               = Some (case map_of m ''score'' of None \<Rightarrow> PFloat 0 | Some v \<Rightarrow> v))
              results
              [[(''content'', PStr ''likes coffee''), (''metadata'', PDict []),
                (''created_at'', PNone), (''relevance_score'', PFloat 0)]])
   \<and> traverse (memory_line demo_env) [[(''memory'', PStr ''likes coffee'')]]
       = Inr [''- likes coffee (Relevance: 0.00)'']
   \<and> CreateCall \<lparr> client_api_key = ''k'', base_url = ''b'' \<rparr>
        \<lparr> req_model = ''m1'',
          req_messages =
            [\<lparr> role = ''system'',
               content = Some (''Be brief.'' @ [CHR 0x0A, CHR 0x0A] @ ''Relevant Memories:''
                               @ [CHR 0x0A] @ ''- likes coffee (Relevance: 0.00)'') \<rparr>,
             \<lparr> role = ''user'', content = Some ''hi'' \<rparr>],
          req_stream = False, req_temperature = 1 / 2, req_max_tokens = 2000 \<rparr>
       \<in> set (calls (snd (snd (gen_next demo_env demo_llm
                                  (chat_with_memories ''hi'' None True False) demo_world))))"
proof -
  have h1: "mm_search_memories demo_env demo_manager ''u'' ''coffee'' 5 demo_world
     = (Inr [[(''content'', PStr ''likes coffee''), (''metadata'', PDict []),
              (''created_at'', PNone), (''relevance_score'', PFloat 0)]],
        \<lparr> store = [], calls = [SearchCall ''coffee'' ''u'' 5] \<rparr>)"
    by code_simp
  have h2: "memory_manager demo_llm = Some demo_manager" by (simp add: demo_llm_def)
  have h3: "mem_search demo_env (store demo_world) ''hi''
              (case None of None \<Rightarrow> user_id demo_llm
               | Some a \<Rightarrow> if a = [] then user_id demo_llm else a)
              (context_limit (mm_config demo_manager)) = Inr [[(''memory'', PStr ''likes coffee'')]]"
    by (simp add: demo_env_def demo_manager_def)
  have h4: "traverse (memory_line demo_env) [[(''memory'', PStr ''likes coffee'')]]
              = Inr [''- likes coffee (Relevance: 0.00)'']"
    by code_simp
  have h5: "gen_next demo_env demo_llm (chat_with_memories ''hi'' None True False) demo_world
              = (fst (gen_next demo_env demo_llm (chat_with_memories ''hi'' None True False) demo_world),
                 fst (snd (gen_next demo_env demo_llm (chat_with_memories ''hi'' None True False) demo_world)),
                 snd (snd (gen_next demo_env demo_llm (chat_with_memories ''hi'' None True False) demo_world)))"
    by simp
  from missing_score_is_zero
         [where E = demo_env and mm = demo_manager and uid = "''u''" and q = "''coffee''" and n = 5
            and w = demo_world and L = demo_llm and mm' = demo_manager and ?w0.0 = demo_world
            and msg = "''hi''" and u = None and sm = True and st = False
            and results' = "[[(''memory'', PStr ''likes coffee'')]]"
            and ls = "[''- likes coffee (Relevance: 0.00)'']"]
       h1 h2 h3 h4 h5
  have c: "(\<exists>results. mem_search demo_env (store demo_world) ''coffee'' ''u''
                    (min 5 (search_limit (mm_config demo_manager))) = Inr results
         \<and> list_all2 (\<lambda>m r. map_of r ''relevance_score''
                               = Some (case map_of m ''score'' of None \<Rightarrow> PFloat 0 | Some v \<Rightarrow> v))
              results
              [[(''content'', PStr ''likes coffee''), (''metadata'', PDict []),
                (''created_at'', PNone), (''relevance_score'', PFloat 0)]])
   \<and> CreateCall (client demo_llm)
        \<lparr> req_model = model (config demo_llm),
          req_messages =
            [\<lparr> role = ''system'',
               content = Some (system_prompt (config demo_llm) @ [CHR 0x0A, CHR 0x0A]
                               @ ''Relevant Memories:'' @ [CHR 0x0A]
                               @ (case [''- likes coffee (Relevance: 0.00)''] of [] \<Rightarrow> []
                                  | l # rest \<Rightarrow> l @ concat (map (\<lambda>x. CHR 0x0A # x) rest))) \<rparr>,
             \<lparr> role = ''user'', content = Some ''hi'' \<rparr>],
          req_stream = False, req_temperature = temperature (config demo_llm),
          req_max_tokens = max_tokens (config demo_llm) \<rparr>
       \<in> set (calls (snd (snd (gen_next demo_env demo_llm
                                  (chat_with_memories ''hi'' None True False) demo_world))))"
    by blast
  have d: "client demo_llm = \<lparr> client_api_key = ''k'', base_url = ''b'' \<rparr>"
    "model (config demo_llm) = ''m1''" "system_prompt (config demo_llm) = ''Be brief.''"
    "temperature (config demo_llm) = 1 / 2" "max_tokens (config demo_llm) = 2000"
    by (simp_all add: demo_llm_def demo_config_def)
  from c have "CreateCall \<lparr> client_api_key = ''k'', base_url = ''b'' \<rparr>
        \<lparr> req_model = ''m1'',
          req_messages =
            [\<lparr> role = ''system'',
               content = Some (''Be brief.'' @ [CHR 0x0A, CHR 0x0A] @ ''Relevant Memories:''
                               @ [CHR 0x0A] @ ''- likes coffee (Relevance: 0.00)'') \<rparr>,
             \<lparr> role = ''user'', content = Some ''hi'' \<rparr>],
          req_stream = False, req_temperature = 1 / 2, req_max_tokens = 2000 \<rparr>
       \<in> set (calls (snd (snd (gen_next demo_env demo_llm
                                  (chat_with_memories ''hi'' None True False) demo_world))))"
    unfolding d by simp
  with h1 c h4 show ?thesis by blast
qed

section \<open>Interactive shell: properties\<close>

text \<open>Splitting and stripping.\<close>

lemma is_space_blank: "is_space (CHR 0x20)"
  by code_simp

lemma lower_char_blank: "lower_char (CHR 0x20) = CHR 0x20"
  by code_simp

lemma lower_search_no_space:
  assumes "lower tok = ''search''"
  shows "CHR 0x20 \<notin> set tok"
proof
  assume "CHR 0x20 \<in> set tok"
  then have "lower_char (CHR 0x20) \<in> set (lower tok)" by (auto simp: lower_def)
  then have "CHR 0x20 \<in> set ''search''" by (simp only: lower_char_blank assms)
  then show False by simp
qed

lemma split1_no_space:
  assumes "CHR 0x20 \<notin> set s"
  shows "split1 s = [s]"
proof -
  from assms have "dropWhile (\<lambda>c. c \<noteq> CHR 0x20) s = []" by (auto simp: dropWhile_eq_Nil_conv)
  then show ?thesis unfolding split1_def by (simp only: list.case)
qed

lemma split1_space:
  assumes "CHR 0x20 \<notin> set c0"
  shows "split1 (c0 @ CHR 0x20 # q) = [c0, q]"
proof -
  from assms have "dropWhile (\<lambda>c. c \<noteq> CHR 0x20) (c0 @ CHR 0x20 # q) = CHR 0x20 # q"
    by (auto simp: dropWhile_append3)
  moreover from assms have "takeWhile (\<lambda>c. c \<noteq> CHR 0x20) (c0 @ CHR 0x20 # q) = c0"
    by (auto simp: takeWhile_tail)
  ultimately show ?thesis unfolding split1_def by (simp only: list.case)
qed

lemma split1_cases:
  "(CHR 0x20 \<notin> set s \<and> split1 s = [s])
   \<or> (\<exists>c0 q. s = c0 @ CHR 0x20 # q \<and> CHR 0x20 \<notin> set c0 \<and> split1 s = [c0, q])"
proof (cases "CHR 0x20 \<in> set s")
  case False
  then show ?thesis by (simp add: split1_no_space)
next
  case True
  then obtain c0 q where "s = c0 @ CHR 0x20 # q" "CHR 0x20 \<notin> set c0"
    by (auto dest: split_list_first)
  then show ?thesis using split1_space by blast
qed

lemma strip_last_not_space:
  assumes "strip s = xs @ [c]"
  shows "\<not> is_space c"
proof -
  from assms have "rev (strip s) = c # rev xs" by simp
  then have "dropWhile is_space (rev (dropWhile is_space s)) = c # rev xs"
    by (simp add: strip_def)
  from hd_dropWhile [of is_space "rev (dropWhile is_space s)"] this show ?thesis by simp
qed

lemma strip_query_nonempty:
  assumes "strip line = CHR 0x2F # c0 @ CHR 0x20 # q"
  shows "q \<noteq> []"
proof
  assume "q = []"
  with assms have "strip line = (CHR 0x2F # c0) @ [CHR 0x20]" by simp
  from strip_last_not_space [OF this] is_space_blank show False by simp
qed

text \<open>Every printing function only appends to what was written before.\<close>

lemma print_metadata_ext: "\<exists>ext. print_metadata E m out = out @ ext"
  by (simp add: print_metadata_def print_line_def Let_def)

lemma print_created_ext: "\<exists>ext. print_created E m out = out @ ext"
  by (simp add: print_created_def print_line_def Let_def)

lemma print_relevance_ext: "\<exists>ext. snd (print_relevance m out) = out @ ext"
  by (simp add: print_relevance_def print_line_def Let_def split: sum.splits)

lemma print_memory_items_ext: "\<exists>ext. snd (print_memory_items E i ms out) = out @ ext"
proof (induction ms arbitrary: i out)
  case Nil
  then show ?case by simp
next
  case (Cons m ms)
  show ?case
  proof (cases "map_of m ''content''")
    case None
    then show ?thesis by simp
  next
    case (Some c)
    let ?o1 = "print_line (nl @ show_nat i @ ''. Content: '' @ py_str E c) out"
    obtain e2 where e2: "print_metadata E m ?o1 = ?o1 @ e2" using print_metadata_ext by blast
    obtain e3 where e3: "print_created E m (?o1 @ e2) = (?o1 @ e2) @ e3"
      using print_created_ext by blast
    obtain r o4 where pr: "print_relevance m ((?o1 @ e2) @ e3) = (r, o4)"
      by (cases "print_relevance m ((?o1 @ e2) @ e3)") auto
    with print_relevance_ext [of m "(?o1 @ e2) @ e3"] obtain e4 where
      e4: "o4 = ((?o1 @ e2) @ e3) @ e4" by auto
    from Cons.IH [of "Suc i" o4] obtain e5 where
      e5: "snd (print_memory_items E (Suc i) ms o4) = o4 @ e5" by blast
    from Some e2 e3 pr e4 e5 show ?thesis
      by (cases r) (auto simp: Let_def print_line_def)
  qed
qed

lemma print_memories_ext:
  assumes "print_memories E ms out = (r, out')"
  shows "\<exists>ext. out' = out @ ext"
proof (cases "ms = []")
  case True
  with assms show ?thesis by (auto simp: print_memories_def print_line_def)
next
  case False
  from print_memory_items_ext [of E 1 ms "print_line (nl @ ''Relevant Memories:'') out"]
  obtain ext where "snd (print_memory_items E 1 ms (print_line (nl @ ''Relevant Memories:'') out))
                      = print_line (nl @ ''Relevant Memories:'') out @ ext" by blast
  with False assms show ?thesis by (auto simp: print_memories_def print_line_def)
qed

lemma print_profile_items_ext: "\<exists>ext. snd (print_profile_items E i ms out) = out @ ext"
proof (induction ms arbitrary: i out)
  case Nil
  then show ?case by simp
next
  case (Cons m ms)
  show ?case
  proof (cases "map_of m ''content''")
    case None
    then show ?thesis by simp
  next
    case (Some c)
    let ?o1 = "print_line (nl @ show_nat i @ ''. Content: '' @ py_str E c) out"
    obtain e2 where e2: "print_metadata E m ?o1 = ?o1 @ e2" using print_metadata_ext by blast
    obtain e3 where e3: "print_created E m (?o1 @ e2) = (?o1 @ e2) @ e3"
      using print_created_ext by blast
    from Cons.IH [of "Suc i" "(?o1 @ e2) @ e3"] obtain e5 where
      e5: "snd (print_profile_items E (Suc i) ms ((?o1 @ e2) @ e3)) = ((?o1 @ e2) @ e3) @ e5" by blast
    from Some e2 e3 e5 show ?thesis
      by (auto simp: Let_def print_line_def)
  qed
qed

lemma print_profile_ext:
  assumes "print_profile E ps out = (r, out')"
  shows "\<exists>ext. out' = out @ (nl @ ''User Profile:'' @ nl) # ext"
proof (cases "ps = []")
  case True
  with assms show ?thesis by (auto simp: print_profile_def print_line_def Let_def)
next
  case False
  let ?o = "print_line (nl @ ''Recent Memories:'') (print_line (nl @ ''User Profile:'') out)"
  from print_profile_items_ext [of E 1 ps ?o]
  obtain ext where "snd (print_profile_items E 1 ps ?o) = ?o @ ext" by blast
  with False assms show ?thesis by (auto simp: print_profile_def print_line_def Let_def)
qed

text \<open>What each branch of a turn writes right after the prompt.\<close>

lemma starts_with_slash: "starts_with ''/'' s \<Longrightarrow> \<exists>rest. s = CHR 0x2F # rest"
  by (cases s) auto

lemma try_block_command:
  assumes "strip line = CHR 0x2F # rest" and "split1 rest = c0 # args"
  shows "try_block E L mm (Inr line) out w =
     (let out0 = out @ [nl @ ''You: '']; cmd = lower c0
      in if cmd = ''exit'' then (Brk, print_line ''Goodbye!'' out0, w)
         else if cmd = ''search'' \<and> args \<noteq> [] then
           (let query = hd args;
                out1 = print_line (nl @ ''Searching memories for: '' @ query) out0
            in case llm_search_memories E L query 5 w of
                 (Inl e, w') \<Rightarrow> (Exc e, out1, w')
               | (Inr memories, w') \<Rightarrow>
                   (case print_memories E memories out1 of
                      (Some e, out2) \<Rightarrow> (Exc e, out2, w')
                    | (None, out2) \<Rightarrow> (Normal, out2, w')))
         else if cmd = ''profile'' then
           (case llm_get_user_profile E L w of
              (Inl e, w') \<Rightarrow> (Exc e, out0, w')
            | (Inr profile, w') \<Rightarrow>
                (case print_profile E profile out0 of
                   (Some e, out1) \<Rightarrow> (Exc e, out1, w')
                 | (None, out1) \<Rightarrow> (Normal, out1, w')))
         else if cmd = ''clear'' then
           (case delete_user E mm (user_id L) w of
              (Inl e, w') \<Rightarrow> (Exc e, out0, w')
            | (Inr ok, w') \<Rightarrow>
                (Normal,
                 print_line (if ok then ''Chat history cleared.''
                             else ''Failed to clear chat history.'') out0,
                 w'))
         else (Normal, print_help out0, w))"
  using assms by (simp add: try_block_def Let_def)

lemma other_command_output:
  assumes "strip line = CHR 0x2F # rest" and "split1 rest = c0 # args"
    and "\<not> (lower c0 = ''search'' \<and> args \<noteq> [])"
    and "try_block E L mm (Inr line) out w = (oc, out', w')"
  shows "\<exists>ext. out' = out @ [nl @ ''You: ''] @ ext
               \<and> (\<forall>x\<in>set (take 1 ext). \<not> starts_with (nl @ ''S'') x)"
proof -
  let ?out0 = "out @ [nl @ ''You: '']"
  consider (quit) "lower c0 = ''exit''"
    | (profile) "lower c0 \<noteq> ''exit''" "lower c0 = ''profile''"
    | (clear) "lower c0 \<noteq> ''exit''" "lower c0 \<noteq> ''profile''" "lower c0 = ''clear''"
    | (other) "lower c0 \<noteq> ''exit''" "lower c0 \<noteq> ''profile''" "lower c0 \<noteq> ''clear''"
    by blast
  then show ?thesis
  proof cases
    case quit
    with assms(4) have "out' = ?out0 @ [''Goodbye!'' @ nl]"
      by (simp add: try_block_command [OF assms(1,2)] Let_def print_line_def)
    then show ?thesis by (simp add: nl_def)
  next
    case profile
    obtain r w1 where p: "llm_get_user_profile E L w = (r, w1)"
      by (cases "llm_get_user_profile E L w") auto
    show ?thesis
    proof (cases r)
      case (Inl e)
      with profile assms(3,4) p have "out' = ?out0 @ []"
        by (simp add: try_block_command [OF assms(1,2)] Let_def)
      then show ?thesis by (intro exI [of _ "[]"]) simp
    next
      case (Inr ps)
      obtain r2 o2 where pp: "print_profile E ps ?out0 = (r2, o2)"
        by (cases "print_profile E ps ?out0") auto
      from print_profile_ext [OF pp] obtain ext where
        o2: "o2 = ?out0 @ (nl @ ''User Profile:'' @ nl) # ext" by blast
      from Inr profile assms(3,4) p pp have "out' = o2"
        by (cases r2) (simp_all add: try_block_command [OF assms(1,2)] Let_def)
      with o2 have "out' = out @ [nl @ ''You: ''] @ ((nl @ ''User Profile:'' @ nl) # ext)" by simp
      then show ?thesis by (intro exI [of _ "(nl @ ''User Profile:'' @ nl) # ext"]) (simp add: nl_def)
    qed
  next
    case clear
    obtain r w1 where d: "delete_user E mm (user_id L) w = (r, w1)"
      by (cases "delete_user E mm (user_id L) w") auto
    show ?thesis
    proof (cases r)
      case (Inl e)
      with clear assms(3,4) d have "out' = ?out0 @ []"
        by (simp add: try_block_command [OF assms(1,2)] Let_def)
      then show ?thesis by (intro exI [of _ "[]"]) simp
    next
      case (Inr ok)
      with clear assms(3,4) d
      have "out' = ?out0 @ [(if ok then ''Chat history cleared.''
                             else ''Failed to clear chat history.'') @ nl]"
        by (simp add: try_block_command [OF assms(1,2)] Let_def print_line_def)
      then show ?thesis
        by (intro exI [of _ "[(if ok then ''Chat history cleared.''
                             else ''Failed to clear chat history.'') @ nl]"]) (simp add: nl_def)
    qed
  next
    case other
    with assms(3,4) have "out' = ?out0 @ (''Unknown command. Available commands:'' @ nl) # command_list"
      by (cases "lower c0 = ''search''")
         (simp_all add: try_block_command [OF assms(1,2)] Let_def print_help_def print_line_def)
    then show ?thesis
      by (intro exI [of _ "(''Unknown command. Available commands:'' @ nl) # command_list"])
         (simp add: nl_def)
  qed
qed

lemma search_command_output:
  assumes "strip line = CHR 0x2F # rest" and "split1 rest = [c0, q]"
    and "lower c0 = ''search''"
    and "try_block E L mm (Inr line) out w = (oc, out', w')"
  shows "\<exists>ext. out' = out @ [nl @ ''You: '', nl @ ''Searching memories for: '' @ q @ nl] @ ext"
proof -
  let ?out1 = "out @ [nl @ ''You: '', nl @ ''Searching memories for: '' @ q @ nl]"
  obtain r w1 where s: "llm_search_memories E L q 5 w = (r, w1)"
    by (cases "llm_search_memories E L q 5 w") auto
  show ?thesis
  proof (cases r)
    case (Inl e)
    with assms(3,4) s have "out' = ?out1 @ []"
      by (simp add: try_block_command [OF assms(1,2)] Let_def print_line_def)
    then show ?thesis by (intro exI [of _ "[]"]) simp
  next
    case (Inr ms)
    obtain r2 o2 where pm: "print_memories E ms ?out1 = (r2, o2)"
      by (cases "print_memories E ms ?out1") auto
    from print_memories_ext [OF pm] obtain ext where o2: "o2 = ?out1 @ ext" by blast
    from Inr assms(3,4) s pm have "out' = o2"
      by (cases r2) (simp_all add: try_block_command [OF assms(1,2)] Let_def print_line_def)
    with o2 show ?thesis by (intro exI [of _ ext]) simp
  qed
qed

lemma chat_output:
  assumes "\<not> starts_with ''/'' (strip line)"
    and "try_block E L mm (Inr line) out w = (oc, out', w')"
  shows "\<exists>ext. out' = out @ [nl @ ''You: ''] @ (nl @ ''Assistant: '') # ext"
  using assms
  by (auto simp: try_block_def Let_def split: prod.splits option.splits)

lemma shell_turn_output:
  assumes "shell_turn E L mm inp out w = (c, out', w')"
  shows "\<exists>oc o1 w1 tail. try_block E L mm inp out w = (oc, o1, w1) \<and> out' = o1 @ tail
           \<and> (\<forall>x\<in>set tail. \<not> starts_with (nl @ ''S'') x)"
proof -
  obtain oc o1 w1 where t: "try_block E L mm inp out w = (oc, o1, w1)"
    by (cases "try_block E L mm inp out w") auto
  show ?thesis
  proof (cases oc)
    case Normal
    with assms t have "out' = o1 @ []" by (simp add: shell_turn_def)
    with t show ?thesis by (intro exI [of _ oc] exI [of _ o1] exI [of _ w1] exI [of _ "[]"]) simp
  next
    case Brk
    with assms t have "out' = o1 @ []" by (simp add: shell_turn_def)
    with t show ?thesis by (intro exI [of _ oc] exI [of _ o1] exI [of _ w1] exI [of _ "[]"]) simp
  next
    case (Exc e)
    with assms t have "out' = o1 @ [] \<or> out' = o1 @ [(nl @ ''Goodbye!'') @ nl]
        \<or> out' = o1 @ [(nl @ ''Error: '' @ str_exn E e) @ nl]"
      by (auto simp: shell_turn_def print_line_def split: if_splits)
    then consider "out' = o1 @ []" | "out' = o1 @ [(nl @ ''Goodbye!'') @ nl]"
      | "out' = o1 @ [(nl @ ''Error: '' @ str_exn E e) @ nl]" by blast
    then show ?thesis
    proof cases
      case 1
      with t show ?thesis by (intro exI [of _ oc] exI [of _ o1] exI [of _ w1] exI [of _ "[]"]) simp
    next
      case 2
      with t show ?thesis
        by (intro exI [of _ oc] exI [of _ o1] exI [of _ w1] exI [of _ "[(nl @ ''Goodbye!'') @ nl]"])
           (simp add: nl_def)
    next
      case 3
      with t show ?thesis
        by (intro exI [of _ oc] exI [of _ o1] exI [of _ w1]
              exI [of _ "[(nl @ ''Error: '' @ str_exn E e) @ nl]"])
           (simp add: nl_def)
    qed
  qed
qed

lemma not_search_at:
  assumes "out' = (out @ [p] @ ext) @ tail"
    and "\<forall>x\<in>set (take 1 ext). \<not> starts_with (nl @ ''S'') x"
    and "\<forall>x\<in>set tail. \<not> starts_with (nl @ ''S'') x"
    and "length out + 1 < length out'"
  shows "\<not> starts_with (nl @ ''S'') (out' ! (length out + 1))"
proof (cases ext)
  case Nil
  with assms(1,4) obtain x xs where tl: "tail = x # xs" by (cases tail) auto
  with Nil assms(1) have "out' ! (length out + 1) = x" by (simp add: nth_append)
  with tl assms(3) show ?thesis by simp
next
  case (Cons x xs)
  with assms(1) have "out' ! (length out + 1) = x" by (simp add: nth_append)
  with Cons assms(2) show ?thesis by simp
qed

lemma search_line_starts: "starts_with (nl @ ''S'') (nl @ ''Searching memories for: '' @ q @ nl)"
  by (simp add: nl_def)

text \<open>The two facts about the search command, with the help output named by the
  function that writes it.\<close>

lemma shell_turn_search_shape:
  "(strip line = CHR 0x2F # tok \<and> lower tok = ''search'' \<longrightarrow>
      shell_turn E L mm (Inr line) out w = (Continue, print_help (out @ [nl @ ''You: '']), w))
   \<and> (shell_turn E L mm (Inr line) out w = (c, out', w')
        \<and> length out + 1 < length out'
        \<and> out' ! (length out + 1) = nl @ ''Searching memories for: '' @ q @ nl \<longrightarrow>
      q \<noteq> [] \<and> (\<exists>cmd. strip line = CHR 0x2F # cmd @ CHR 0x20 # q \<and> lower cmd = ''search''))"
proof -
  have first: "strip line = CHR 0x2F # tok \<and> lower tok = ''search'' \<longrightarrow>
      shell_turn E L mm (Inr line) out w = (Continue, print_help (out @ [nl @ ''You: '']), w)"
  proof (rule impI)
  assume a: "strip line = CHR 0x2F # tok \<and> lower tok = ''search''"
  then have "CHR 0x20 \<notin> set tok" by (simp add: lower_search_no_space)
  then have sp: "split1 tok = tok # []" by (rule split1_no_space)
  from a have "try_block E L mm (Inr line) out w = (Normal, print_help (out @ [nl @ ''You: '']), w)"
    by (simp add: try_block_command [OF conjunct1 [OF a] sp] Let_def)
  then show "shell_turn E L mm (Inr line) out w = (Continue, print_help (out @ [nl @ ''You: '']), w)"
    by (simp add: shell_turn_def)
  qed
  have second: "shell_turn E L mm (Inr line) out w = (c, out', w')
        \<and> length out + 1 < length out'
        \<and> out' ! (length out + 1) = nl @ ''Searching memories for: '' @ q @ nl \<longrightarrow>
      q \<noteq> [] \<and> (\<exists>cmd. strip line = CHR 0x2F # cmd @ CHR 0x20 # q \<and> lower cmd = ''search'')"
  proof (rule impI)
  assume b: "shell_turn E L mm (Inr line) out w = (c, out', w')
        \<and> length out + 1 < length out'
        \<and> out' ! (length out + 1) = nl @ ''Searching memories for: '' @ q @ nl"
  then have st: "shell_turn E L mm (Inr line) out w = (c, out', w')"
    and len: "length out + 1 < length out'"
    and at: "out' ! (length out + 1) = nl @ ''Searching memories for: '' @ q @ nl" by blast+
  from shell_turn_output [OF st] obtain oc o1 w1 tail where
    t: "try_block E L mm (Inr line) out w = (oc, o1, w1)" and o: "out' = o1 @ tail"
    and tail: "\<forall>x\<in>set tail. \<not> starts_with (nl @ ''S'') x" by blast
  from at search_line_starts [of q]
  have hit: "starts_with (nl @ ''S'') (out' ! (length out + 1))" by simp
  have other: False
    if "\<exists>ext. o1 = out @ [nl @ ''You: ''] @ ext \<and> (\<forall>x\<in>set (take 1 ext). \<not> starts_with (nl @ ''S'') x)"
  proof -
    from that obtain ext where "o1 = out @ [nl @ ''You: ''] @ ext"
      "\<forall>x\<in>set (take 1 ext). \<not> starts_with (nl @ ''S'') x" by blast
    with o have "out' = (out @ [nl @ ''You: ''] @ ext) @ tail" by simp
    from not_search_at [OF this \<open>\<forall>x\<in>set (take 1 ext). \<not> starts_with (nl @ ''S'') x\<close> tail len] hit
    show False by simp
  qed
  have slash: "starts_with ''/'' (strip line)"
  proof (rule ccontr)
    assume "\<not> starts_with ''/'' (strip line)"
    from chat_output [OF this t] obtain ext where
      "o1 = out @ [nl @ ''You: ''] @ (nl @ ''Assistant: '') # ext" by blast
    then have "\<exists>ext. o1 = out @ [nl @ ''You: ''] @ ext
                 \<and> (\<forall>x\<in>set (take 1 ext). \<not> starts_with (nl @ ''S'') x)"
      by (intro exI [of _ "(nl @ ''Assistant: '') # ext"]) (simp add: nl_def)
    with other show False by simp
  qed
  then obtain rest where rest: "strip line = CHR 0x2F # rest" by (auto dest: starts_with_slash)
  have "\<exists>c0 q0. rest = c0 @ CHR 0x20 # q0 \<and> split1 rest = [c0, q0] \<and> lower c0 = ''search''"
  proof (rule ccontr)
    assume n: "\<not> (\<exists>c0 q0. rest = c0 @ CHR 0x20 # q0 \<and> split1 rest = [c0, q0]
                        \<and> lower c0 = ''search'')"
    from split1_cases [of rest]
    have "\<exists>c0 args. split1 rest = c0 # args \<and> \<not> (lower c0 = ''search'' \<and> args \<noteq> [])"
    proof
      assume "CHR 0x20 \<notin> set rest \<and> split1 rest = [rest]"
      then show ?thesis by simp
    next
      assume "\<exists>c0 q. rest = c0 @ CHR 0x20 # q \<and> CHR 0x20 \<notin> set c0 \<and> split1 rest = [c0, q]"
      then obtain c0 q0 where h: "rest = c0 @ CHR 0x20 # q0" "split1 rest = [c0, q0]" by blast
      with n have "lower c0 \<noteq> ''search''" by blast
      with h(2) show ?thesis by simp
    qed
    then obtain c0 args where "split1 rest = c0 # args" "\<not> (lower c0 = ''search'' \<and> args \<noteq> [])"
      by blast
    from other_command_output [OF rest this t] other show False by blast
  qed
  then obtain c0 q0 where found: "rest = c0 @ CHR 0x20 # q0" "split1 rest = [c0, q0]"
    "lower c0 = ''search''" by blast
  from search_command_output [OF rest found(2,3) t] obtain ext where
    "o1 = out @ [nl @ ''You: '', nl @ ''Searching memories for: '' @ q0 @ nl] @ ext" by blast
  with o have "out' ! (length out + 1) = nl @ ''Searching memories for: '' @ q0 @ nl"
    by (simp add: nth_append)
  with at have "q0 = q" by simp
  with rest found have line: "strip line = CHR 0x2F # c0 @ CHR 0x20 # q" by simp
  from strip_query_nonempty [OF line] line found(3)
  show "q \<noteq> [] \<and> (\<exists>cmd. strip line = CHR 0x2F # cmd @ CHR 0x20 # q \<and> lower cmd = ''search'')"
    by blast
  qed
  from first second show ?thesis by (rule conjI)
qed

text \<open>
  C10.  A line that, stripped, is \<open>/search\<close> alone (in any letter case) makes the turn
  write, after the prompt, the line \<open>Unknown command. Available commands:\<close> and the four
  lines that list the commands, issue no call and continue the loop.  And whenever a turn
  takes the search branch, which is when the line \<open>Searching memories for: q\<close> is the
  first thing written after the prompt, the stripped input is \<open>/search\<close> (in any letter
  case), one space and the query \<open>q\<close>, and \<open>q\<close> is not empty.
\<close>

theorem bare_search_prints_help:
  "(strip line = CHR 0x2F # tok \<and> lower tok = ''search'' \<longrightarrow>
      shell_turn E L mm (Inr line) out w
        = (Continue,
           out @ [CHR 0x0A # ''You: '',
                  ''Unknown command. Available commands:'' @ [CHR 0x0A],
                  ''  /search <query> - Search memories'' @ [CHR 0x0A],
                  ''  /profile - View user profile'' @ [CHR 0x0A],
                  ''  /clear - Clear chat history'' @ [CHR 0x0A],
                  ''  /exit - Exit the chat'' @ [CHR 0x0A]],
           w))
   \<and> (shell_turn E L mm (Inr line) out w = (c, out', w')
        \<and> length out + 1 < length out'
        \<and> out' ! (length out + 1) = CHR 0x0A # ''Searching memories for: '' @ q @ [CHR 0x0A] \<longrightarrow>
      q \<noteq> [] \<and> (\<exists>cmd. strip line = CHR 0x2F # cmd @ CHR 0x20 # q \<and> lower cmd = ''search''))"
proof -
  have first: "strip line = CHR 0x2F # tok \<and> lower tok = ''search'' \<longrightarrow>
      shell_turn E L mm (Inr line) out w
        = (Continue,
           out @ [CHR 0x0A # ''You: '',
                  ''Unknown command. Available commands:'' @ [CHR 0x0A],
                  ''  /search <query> - Search memories'' @ [CHR 0x0A],
                  ''  /profile - View user profile'' @ [CHR 0x0A],
                  ''  /clear - Clear chat history'' @ [CHR 0x0A],
                  ''  /exit - Exit the chat'' @ [CHR 0x0A]],
           w)"
  proof
    assume a: "strip line = CHR 0x2F # tok \<and> lower tok = ''search''"
    have "print_help (out @ [nl @ ''You: ''])
            = out @ [CHR 0x0A # ''You: '',
                  ''Unknown command. Available commands:'' @ [CHR 0x0A],
                  ''  /search <query> - Search memories'' @ [CHR 0x0A],
                  ''  /profile - View user profile'' @ [CHR 0x0A],
                  ''  /clear - Clear chat history'' @ [CHR 0x0A],
                  ''  /exit - Exit the chat'' @ [CHR 0x0A]]"
      by (simp add: print_help_def print_line_def command_list_def nl_def)
    with shell_turn_search_shape [of line tok E L mm out w] a
    show "shell_turn E L mm (Inr line) out w
        = (Continue,
           out @ [CHR 0x0A # ''You: '',
                  ''Unknown command. Available commands:'' @ [CHR 0x0A],
                  ''  /search <query> - Search memories'' @ [CHR 0x0A],
                  ''  /profile - View user profile'' @ [CHR 0x0A],
                  ''  /clear - Clear chat history'' @ [CHR 0x0A],
                  ''  /exit - Exit the chat'' @ [CHR 0x0A]],
           w)" by simp
  qed
  have second: "shell_turn E L mm (Inr line) out w = (c, out', w')
        \<and> length out + 1 < length out'
        \<and> out' ! (length out + 1) = CHR 0x0A # ''Searching memories for: '' @ q @ [CHR 0x0A] \<longrightarrow>
      q \<noteq> [] \<and> (\<exists>cmd. strip line = CHR 0x2F # cmd @ CHR 0x20 # q \<and> lower cmd = ''search'')"
  proof
    assume b: "shell_turn E L mm (Inr line) out w = (c, out', w')
        \<and> length out + 1 < length out'
        \<and> out' ! (length out + 1) = CHR 0x0A # ''Searching memories for: '' @ q @ [CHR 0x0A]"
    then have "shell_turn E L mm (Inr line) out w = (c, out', w')
        \<and> length out + 1 < length out'
        \<and> out' ! (length out + 1) = nl @ ''Searching memories for: '' @ q @ nl"
      by (simp add: nl_def)
    with shell_turn_search_shape [of line tok E L mm out w c out' w' q]
    show "q \<noteq> [] \<and> (\<exists>cmd. strip line = CHR 0x2F # cmd @ CHR 0x20 # q \<and> lower cmd = ''search'')"
      by blast
  qed
  from first second show ?thesis by (rule conjI)
qed

theorem bare_search_prints_help_witness:
  "strip ''  /Search  '' = CHR 0x2F # ''Search'' \<and> lower ''Search'' = ''search''
   \<and> shell_turn demo_env demo_llm demo_manager (Inr ''  /Search  '') [] demo_world
       = (Continue,
          [CHR 0x0A # ''You: '',
           ''Unknown command. Available commands:'' @ [CHR 0x0A],
           ''  /search <query> - Search memories'' @ [CHR 0x0A],
           ''  /profile - View user profile'' @ [CHR 0x0A],
           ''  /clear - Clear chat history'' @ [CHR 0x0A],
           ''  /exit - Exit the chat'' @ [CHR 0x0A]],
          \<lparr> store = [], calls = [] \<rparr>)
   \<and> shell_turn demo_env demo_llm demo_manager (Inr ''/SEARCH coffee'') [] demo_world
       = (Continue,
          [CHR 0x0A # ''You: '', CHR 0x0A # ''Searching memories for: coffee'' @ [CHR 0x0A],
           CHR 0x0A # ''Relevant Memories:'' @ [CHR 0x0A],
           CHR 0x0A # ''1. Content: likes coffee'' @ [CHR 0x0A],
           ''   Relevance: 0.00'' @ [CHR 0x0A]],
          \<lparr> store = [], calls = [SearchCall ''coffee'' ''demo_user'' 5] \<rparr>)
   \<and> ''coffee'' \<noteq> []
   \<and> (\<exists>cmd. strip ''/SEARCH coffee'' = CHR 0x2F # cmd @ CHR 0x20 # ''coffee''
             \<and> lower cmd = ''search'')"
proof -
  have s1: "strip ''  /Search  '' = CHR 0x2F # ''Search'' \<and> lower ''Search'' = ''search''"
    by code_simp
  have r2: "shell_turn demo_env demo_llm demo_manager (Inr ''/SEARCH coffee'') [] demo_world
       = (Continue,
          [CHR 0x0A # ''You: '', CHR 0x0A # ''Searching memories for: coffee'' @ [CHR 0x0A],
           CHR 0x0A # ''Relevant Memories:'' @ [CHR 0x0A],
           CHR 0x0A # ''1. Content: likes coffee'' @ [CHR 0x0A],
           ''   Relevance: 0.00'' @ [CHR 0x0A]],
          \<lparr> store = [], calls = [SearchCall ''coffee'' ''demo_user'' 5] \<rparr>)"
    by code_simp
  have h2: "shell_turn demo_env demo_llm demo_manager (Inr ''/SEARCH coffee'') [] demo_world
       = (Continue,
          [CHR 0x0A # ''You: '', CHR 0x0A # ''Searching memories for: coffee'' @ [CHR 0x0A],
           CHR 0x0A # ''Relevant Memories:'' @ [CHR 0x0A],
           CHR 0x0A # ''1. Content: likes coffee'' @ [CHR 0x0A],
           ''   Relevance: 0.00'' @ [CHR 0x0A]],
          \<lparr> store = [], calls = [SearchCall ''coffee'' ''demo_user'' 5] \<rparr>)
     \<and> length ([] :: string list) + 1
         < length [CHR 0x0A # ''You: '', CHR 0x0A # ''Searching memories for: coffee'' @ [CHR 0x0A],
           CHR 0x0A # ''Relevant Memories:'' @ [CHR 0x0A],
           CHR 0x0A # ''1. Content: likes coffee'' @ [CHR 0x0A],
           ''   Relevance: 0.00'' @ [CHR 0x0A]]
     \<and> [CHR 0x0A # ''You: '', CHR 0x0A # ''Searching memories for: coffee'' @ [CHR 0x0A],
           CHR 0x0A # ''Relevant Memories:'' @ [CHR 0x0A],
           CHR 0x0A # ''1. Content: likes coffee'' @ [CHR 0x0A],
           ''   Relevance: 0.00'' @ [CHR 0x0A]] ! (length ([] :: string list) + 1)
         = CHR 0x0A # ''Searching memories for: '' @ ''coffee'' @ [CHR 0x0A]"
    using r2 by simp
  from bare_search_prints_help
         [where line = "''  /Search  ''" and tok = "''Search''" and E = demo_env and L = demo_llm
            and mm = demo_manager and out = "[]" and w = demo_world]
       s1
  have c1: "shell_turn demo_env demo_llm demo_manager (Inr ''  /Search  '') [] demo_world
       = (Continue,
          [CHR 0x0A # ''You: '',
           ''Unknown command. Available commands:'' @ [CHR 0x0A],
           ''  /search <query> - Search memories'' @ [CHR 0x0A],
           ''  /profile - View user profile'' @ [CHR 0x0A],
           ''  /clear - Clear chat history'' @ [CHR 0x0A],
           ''  /exit - Exit the chat'' @ [CHR 0x0A]],
          \<lparr> store = [], calls = [] \<rparr>)"
    by (simp add: demo_world_def)
  from bare_search_prints_help
         [where line = "''/SEARCH coffee''" and E = demo_env and L = demo_llm
            and mm = demo_manager and out = "[]" and w = demo_world and q = "''coffee''"]
       h2
  have c2: "''coffee'' \<noteq> []
     \<and> (\<exists>cmd. strip ''/SEARCH coffee'' = CHR 0x2F # cmd @ CHR 0x20 # ''coffee''
             \<and> lower cmd = ''search'')"
    by blast
  from s1 c1 r2 c2 show ?thesis by blast
qed

end
